theory Spec2Isabelle
  imports Complex_Main
begin

section \<open>Numbers\<close>

text \<open>
  The extension computes with JavaScript numbers. Pixel sizes, offsets and option values
  are modelled as reals with exact arithmetic. Two operations of the code leave the finite
  numbers: the division by the content band height (zero when header and footer fill the
  page) and the sentinel \<^verbatim>\<open>Number.POSITIVE_INFINITY\<close> pushed after the page tops.
  Their results are values of \<open>jsnum\<close>; comparison and addition on \<open>jsnum\<close> follow
  the language: every comparison with \<open>NaN\<close> is false, \<open>Infinity - 1\<close> is \<open>Infinity\<close>.
  Negative zero is not modelled, nor is a number that is not finite when it is given as
  an option at start-up or measured by the browser; one given as a margin is (see the
  commands).

  The engine's numbers are doubles, and each operation on them rounds its exact result
  to the nearest double. Where a number decides a count (the sampled height, the page
  count) the arithmetic is written below as the engine performs it, with \<open>fl\<close> around
  each operation; where it only ends up as a length in a style (the margins of a break,
  the minimum height of the container) it is written on exact numbers.
\<close>

datatype jsnum = Fin real | PosInf | NegInf | NaN


fun Math_ceil :: "jsnum \<Rightarrow> jsnum" where
  "Math_ceil (Fin x) = Fin (of_int \<lceil>x\<rceil>)"
| "Math_ceil PosInf = PosInf"
| "Math_ceil NegInf = NegInf"
| "Math_ceil NaN = NaN"

fun js_lt :: "jsnum \<Rightarrow> jsnum \<Rightarrow> bool" where
  "js_lt (Fin a) (Fin b) = (a < b)"
| "js_lt NaN _ = False"
| "js_lt _ NaN = False"
| "js_lt PosInf _ = False"
| "js_lt _ PosInf = True"
| "js_lt _ NegInf = False"
| "js_lt NegInf _ = True"

definition js_gt :: "jsnum \<Rightarrow> jsnum \<Rightarrow> bool" where
  "js_gt a b = js_lt b a"

fun js_le :: "jsnum \<Rightarrow> jsnum \<Rightarrow> bool" where
  "js_le NaN _ = False"
| "js_le _ NaN = False"
| "js_le a b = (a = b \<or> js_lt a b)"

definition js_ge :: "jsnum \<Rightarrow> jsnum \<Rightarrow> bool" where
  "js_ge a b = js_le b a"

fun js_add :: "jsnum \<Rightarrow> jsnum \<Rightarrow> jsnum" where
  "js_add (Fin a) (Fin b) = Fin (a + b)"
| "js_add NaN _ = NaN"
| "js_add _ NaN = NaN"
| "js_add PosInf NegInf = NaN"
| "js_add NegInf PosInf = NaN"
| "js_add PosInf _ = PosInf"
| "js_add NegInf _ = NegInf"
| "js_add _ PosInf = PosInf"
| "js_add _ NegInf = NegInf"

section \<open>Doubles\<close>

text \<open>
  \<open>fl x\<close> is the double nearest to \<open>x\<close>, the one with an even significand when two
  are equally near: a significand of 53 bits, so that a number between \<open>2 ^ e\<close> and
  \<open>2 ^ (e + 1)\<close> is rounded to a multiple of \<open>2 ^ (e - 52)\<close>. The exponent range of
  the format is left out (no overflow, no subnormal numbers): the magnitudes at hand are
  pixel counts and their quotients. \<open>halvings\<close> and \<open>doublings\<close> find the exponent.
\<close>

function halvings :: "real \<Rightarrow> nat" where
  "halvings x = (if 2 \<le> x then Suc (halvings (x / 2)) else 0)"
  by pat_completeness auto
termination
proof (relation "measure (\<lambda>x. nat \<lfloor>x\<rfloor>)")
  show "wf (measure (\<lambda>x::real. nat \<lfloor>x\<rfloor>))"
    by simp
next
  fix x :: real
  assume x: "2 \<le> x"
  have "x / 2 < of_int \<lfloor>x\<rfloor>"
    using x by linarith
  then have "\<lfloor>x / 2\<rfloor> < \<lfloor>x\<rfloor>"
    by (simp add: floor_less_iff)
  moreover have "0 < \<lfloor>x\<rfloor>"
    using x by linarith
  ultimately show "(x / 2, x) \<in> measure (\<lambda>x. nat \<lfloor>x\<rfloor>)"
    by simp
qed

declare halvings.simps [simp del]

function doublings :: "real \<Rightarrow> nat" where
  "doublings x = (if 0 < x \<and> x < 1 then Suc (doublings (2 * x)) else 0)"
  by pat_completeness auto
termination
proof (relation "measure (\<lambda>x. nat \<lfloor>1 / x\<rfloor>)")
  show "wf (measure (\<lambda>x::real. nat \<lfloor>1 / x\<rfloor>))"
    by simp
next
  fix x :: real
  assume x: "0 < x \<and> x < 1"
  define y where "y = 1 / x"
  have y: "1 < y"
    using x by (simp add: y_def)
  have pos: "1 \<le> \<lfloor>y\<rfloor>"
    using y by (simp add: le_floor_iff)
  then have "y / 2 < of_int \<lfloor>y\<rfloor>"
    by linarith
  then have "\<lfloor>y / 2\<rfloor> < \<lfloor>y\<rfloor>"
    by (simp add: floor_less_iff)
  moreover have "0 < \<lfloor>y\<rfloor>"
    using pos by simp
  moreover have "1 / (2 * x) = y / 2"
    by (simp add: y_def)
  ultimately show "(2 * x, x) \<in> measure (\<lambda>x. nat \<lfloor>1 / x\<rfloor>)"
    by (simp add: y_def mult.commute)
qed

declare doublings.simps [simp del]

definition ilog2 :: "real \<Rightarrow> int" where
  "ilog2 x = (if 1 \<le> x then int (halvings x) else - int (doublings x))"

definition round_even :: "real \<Rightarrow> int" where
  "round_even r =
     (let f = \<lfloor>r\<rfloor>
      in if r - of_int f < 1 / 2 then f
         else if 1 / 2 < r - of_int f then f + 1
         else if even f then f else f + 1)"

definition fl :: "real \<Rightarrow> real" where
  "fl x =
     (if x = 0 then 0
      else (let ulp = 2 powi (ilog2 \<bar>x\<bar> - 52)
            in sgn x * of_int (round_even (\<bar>x\<bar> / ulp)) * ulp))"

text \<open>The division and the result of an addition, rounded.\<close>

definition js_div_double :: "real \<Rightarrow> real \<Rightarrow> jsnum" where
  "js_div_double a b =
     (if b \<noteq> 0 then Fin (fl (a / b))
      else if 0 < a then PosInf
      else if a < 0 then NegInf
      else NaN)"

fun js_round :: "jsnum \<Rightarrow> jsnum" where
  "js_round (Fin x) = Fin (fl x)"
| "js_round PosInf = PosInf"
| "js_round NegInf = NegInf"
| "js_round NaN = NaN"

section \<open>Options\<close>

text \<open>
  \<^verbatim>\<open>footerText: string | string[] | ((pageNumber: number) => string)\<close> is a tagged
  union; the other options are numbers and one colour string.
\<close>

datatype footerTextSource =
  Str string
| Arr "string list"
| Fn "nat \<Rightarrow> string"

record PaginationPlusOptions =
  pageHeight :: real
  pageGap :: real
  pageBreakBackground :: string
  pageHeaderHeight :: real
  pageFooterHeight :: real
  pageMarginLeft :: real
  pageMarginRight :: real
  pageGapBorderSize :: real
  footerText :: footerTextSource

definition addOptions :: PaginationPlusOptions where
  "addOptions =
     \<lparr> pageHeight = 800, pageGap = 50, pageBreakBackground = ''#ffffff'',
       pageHeaderHeight = 10, pageFooterHeight = 10,
       pageMarginLeft = 0, pageMarginRight = 0, pageGapBorderSize = 1,
       footerText = Str '''' \<rparr>"

section \<open>Footer text of one page break\<close>

text \<open>
  An array read out of range gives \<^verbatim>\<open>undefined\<close> (\<open>None\<close>); \<^verbatim>\<open>a || b\<close> takes
  \<open>b\<close> when \<open>a\<close> is \<^verbatim>\<open>undefined\<close> or the empty string.
\<close>

definition js_index :: "'a list \<Rightarrow> int \<Rightarrow> 'a option" where
  "js_index xs i = (if 0 \<le> i \<and> i < int (length xs) then Some (xs ! nat i) else None)"

fun js_or :: "string option \<Rightarrow> string option \<Rightarrow> string option" where
  "js_or None b = b"
| "js_or (Some s) b = (if s = [] then b else Some s)"

text \<open>The footer-text block of \<^verbatim>\<open>createPageBreak\<close> (responsive revision).\<close>

definition createPageBreak_footerText :: "PaginationPlusOptions \<Rightarrow> nat \<Rightarrow> string" where
  "createPageBreak_footerText pageOptions pageIndex =
     (case footerText pageOptions of
        Str s \<Rightarrow> s
      | Arr xs \<Rightarrow>
          (case js_or (js_or (js_index xs (int pageIndex))
                             (js_index xs (int (length xs) - 1)))
                      (Some [])
           of Some s \<Rightarrow> s | None \<Rightarrow> [])
      | Fn f \<Rightarrow> f (pageIndex + 1))"

text \<open>
  The footer-text block of \<^verbatim>\<open>pageBreakDefinition\<close> in \<^verbatim>\<open>PaginationPlus.ts\<close>: the array
  branch is guarded by \<^verbatim>\<open>length > 0\<close>, and an empty array falls through every branch,
  leaving the initial empty string.
\<close>

definition pageBreakDefinition_footerText :: "PaginationPlusOptions \<Rightarrow> nat \<Rightarrow> string" where
  "pageBreakDefinition_footerText pageOptions pageIndex =
     (case footerText pageOptions of
        Str s \<Rightarrow> s
      | Arr xs \<Rightarrow>
          (if length xs > 0 then
             (case js_or (js_or (js_index xs (int pageIndex))
                                (js_index xs (int (length xs) - 1)))
                         (Some [])
              of Some s \<Rightarrow> s | None \<Rightarrow> [])
           else [])
      | Fn f \<Rightarrow> f (pageIndex + 1))"

section \<open>Page break descriptors\<close>

text \<open>
  \<^verbatim>\<open>createPageBreak\<close> builds a small element tree and sets styles on it. The record
  keeps the values it writes: lengths in pixels as numbers, the breaker's width as the
  pixels added to \<^verbatim>\<open>100%\<close>.
\<close>

record pageBreak =
  page_marginTop :: real
  breaker_width_plus :: real
  breaker_marginLeft :: real
  breaker_marginRight :: real
  footer_height :: real
  footer_text :: string
  gap_height :: real
  gap_background :: string
  header_height :: real
  last_page :: bool

definition createPageBreak :: "bool \<Rightarrow> nat \<Rightarrow> PaginationPlusOptions \<Rightarrow> pageBreak" where
  "createPageBreak firstPage pageIndex pageOptions =
     (let pageHeaderHeight' = pageHeaderHeight pageOptions;
          pageFooterHeight' = pageFooterHeight pageOptions;
          pageMarginLeft' = pageMarginLeft pageOptions;
          pageMarginRight' = pageMarginRight pageOptions;
          pageHeight' = pageHeight pageOptions - (pageHeaderHeight' + pageFooterHeight');
          pageGap' = pageGap pageOptions;
          pageBreakBackground' = pageBreakBackground pageOptions
      in \<lparr> page_marginTop =
             (if firstPage then pageHeaderHeight' + pageHeight' else pageHeight'),
           breaker_width_plus = pageMarginLeft' + pageMarginRight',
           breaker_marginLeft = - pageMarginLeft',
           breaker_marginRight = - pageMarginRight',
           footer_height = pageFooterHeight',
           footer_text = createPageBreak_footerText pageOptions pageIndex,
           gap_height = pageGap',
           gap_background = pageBreakBackground',
           header_height = pageHeaderHeight',
           last_page = False \<rparr>)"

section \<open>Page count and synthesis of the breaks\<close>

text \<open>
  The body of the page widget in \<^verbatim>\<open>createDecoration\<close>. The page count is the
  arithmetic between the height sampling and the loop: \<open>totalHeight\<close> is the sampled
  height, \<open>childCount\<close> the number of children of the element found by
  \<^verbatim>\<open>document.querySelector("[data-rm-pagination]")\<close>, 0 when there is none.

  \<open>pageCount_double\<close> is that arithmetic as the engine performs it, and it is what the
  widget is drawn with. \<open>pageCount\<close> is the same arithmetic on exact numbers: the
  count that the formula of the estimate gives when nothing is rounded.
\<close>

definition pageCount_double :: "PaginationPlusOptions \<Rightarrow> real \<Rightarrow> int \<Rightarrow> jsnum" where
  "pageCount_double pageOptions totalHeight childCount =
     (let extraPages = 5;
          pageGap' = pageGap pageOptions;
          pageHeaderHeight' = pageHeaderHeight pageOptions;
          pageFooterHeight' = pageFooterHeight pageOptions;
          pageHeight' =
            fl (pageHeight pageOptions - fl (pageHeaderHeight' + pageFooterHeight'));
          previousPageCount = childCount;
          previousPageCount =
            (if previousPageCount > extraPages then previousPageCount - extraPages else 0);
          totalPageGap = fl (fl (pageGap' + pageHeaderHeight') + pageFooterHeight');
          actualPageContentHeight =
            fl (totalHeight
                  - fl (of_int previousPageCount
                          * fl (totalPageGap + fl (pageGapBorderSize pageOptions * 2))));
          pages = Math_ceil (js_div_double actualPageContentHeight pageHeight');
          pages = (if js_gt pages (Fin 0) then js_round (js_add pages (Fin (- 1))) else Fin 0)
      in pages)"

text \<open>\<^verbatim>\<open>_pageHeight\<close>, the height of the content band, as the engine computes it.\<close>

definition bandHeight :: "PaginationPlusOptions \<Rightarrow> real" where
  "bandHeight pageOptions =
     fl (pageHeight pageOptions
           - fl (pageHeaderHeight pageOptions + pageFooterHeight pageOptions))"


text \<open>
  \<^verbatim>\<open>for (let i = 0; i < pages + _extraPages; i++)\<close> with a finite bound. The fragment
  grows by one break per round.
\<close>

function appendPageBreaks ::
  "PaginationPlusOptions \<Rightarrow> real \<Rightarrow> nat \<Rightarrow> pageBreak list \<Rightarrow> pageBreak list" where
  "appendPageBreaks pageOptions bound i fragment =
     (if real i < bound
      then appendPageBreaks pageOptions bound (i + 1)
             (fragment @ [createPageBreak (i = 0) i pageOptions])
      else fragment)"
  by pat_completeness auto
termination
proof (relation "measure (\<lambda>(pageOptions, bound, i, fragment). nat \<lceil>bound\<rceil> - i)")
  show "wf (measure (\<lambda>(pageOptions, bound, i, fragment). nat \<lceil>bound\<rceil> - i))"
    by simp
next
  fix pageOptions :: PaginationPlusOptions
  fix bound :: real and i :: nat and fragment :: "pageBreak list"
  assume "real i < bound"
  then have "int i < \<lceil>bound\<rceil>"
    by linarith
  then have "i < nat \<lceil>bound\<rceil>"
    by linarith
  then show "((pageOptions, bound, i + 1, fragment @ [createPageBreak (i = 0) i pageOptions]),
              (pageOptions, bound, i, fragment))
             \<in> measure (\<lambda>(pageOptions, bound, i, fragment). nat \<lceil>bound\<rceil> - i)"
    by simp
qed

declare appendPageBreaks.simps [simp del]

text \<open>
  The loop with the bound the code computes. When \<open>pages\<close> is \<open>Infinity\<close> the test
  \<^verbatim>\<open>i < Infinity\<close> never fails and the widget is never returned: \<open>None\<close>. A test against
  \<open>NaN\<close> or \<open>-Infinity\<close> fails at once.
\<close>

definition synthesize :: "PaginationPlusOptions \<Rightarrow> jsnum \<Rightarrow> pageBreak list option" where
  "synthesize pageOptions pages =
     (case js_add pages (Fin 5) of
        Fin bound \<Rightarrow> Some (appendPageBreaks pageOptions bound 0 [])
      | PosInf \<Rightarrow> None
      | NegInf \<Rightarrow> Some []
      | NaN \<Rightarrow> Some [])"

section \<open>The rendered tree\<close>

text \<open>
  What the code reads from the browser. An element carries the properties the code asks
  for: its id, \<^verbatim>\<open>scrollHeight\<close>, \<^verbatim>\<open>offsetTop\<close>, the \<^verbatim>\<open>offsetTop\<close> of its descendants
  of class \<^verbatim>\<open>page\<close> in document order (\<^verbatim>\<open>querySelectorAll(".page")\<close>) and the number of
  its children. A view is the list \<^verbatim>\<open>view.dom.children\<close> together with the children of
  the element that \<^verbatim>\<open>document.querySelector("[data-rm-pagination]")\<close> finds, if any.
\<close>

record element =
  el_id :: string
  scrollHeight :: real
  offsetTop :: real
  page_offsetTops :: "real list"
  children_length :: nat

record view =
  dom_children :: "element list"
  rm_pagination :: "pageBreak list option"

text \<open>\<^verbatim>\<open>for (let i = 2; i < childElements.length - 1; i++) totalHeight += ...\<close>\<close>

function sumScrollHeight :: "element list \<Rightarrow> nat \<Rightarrow> real \<Rightarrow> real" where
  "sumScrollHeight childElements i totalHeight =
     (if int i < int (length childElements) - 1
      then sumScrollHeight childElements (i + 1)
             (fl (totalHeight + scrollHeight (childElements ! i)))
      else totalHeight)"
  by pat_completeness auto
termination
  by (relation "measure (\<lambda>(childElements, i, totalHeight). length childElements - i)") auto

declare sumScrollHeight.simps [simp del]

text \<open>
  The page widget's render function: sample the height, count the pages, build the
  breaks. \<open>None\<close> when the loop never ends.
\<close>

definition pageWidget_toDOM :: "PaginationPlusOptions \<Rightarrow> view \<Rightarrow> pageBreak list option" where
  "pageWidget_toDOM pageOptions v =
     (let childElements = dom_children v;
          totalHeight = sumScrollHeight childElements 2 0;
          paginationElement = rm_pagination v;
          previousPageCount =
            (case paginationElement of Some cs \<Rightarrow> int (length cs) | None \<Rightarrow> 0);
          pages = pageCount_double pageOptions totalHeight previousPageCount
      in synthesize pageOptions pages)"

section \<open>Page boundaries and the terminal page\<close>

text \<open>
  \<^verbatim>\<open>pageElements.map((el) => el.offsetTop).filter((top) => top !== 0)\<close>, then the pushed
  sentinel.
\<close>

definition pageTopsOf :: "real list \<Rightarrow> jsnum list" where
  "pageTopsOf offsets = map Fin (filter (\<lambda>t. t \<noteq> 0) offsets) @ [PosInf]"

text \<open>
  The inner loop of \<^verbatim>\<open>refreshPage\<close>: the first \<open>j\<close> with
  \<^verbatim>\<open>top >= pageTops[j] && top < pageTops[j + 1]\<close> gives the page \<open>j + 1\<close>; \<open>None\<close>
  when the loop ends without a \<^verbatim>\<open>break\<close>.
\<close>

function findBucket :: "jsnum list \<Rightarrow> real \<Rightarrow> nat \<Rightarrow> nat option" where
  "findBucket pageTops top' j =
     (if int j < int (length pageTops) - 1
      then (if js_ge (Fin top') (pageTops ! j) \<and> js_lt (Fin top') (pageTops ! (j + 1))
            then Some (j + 1)
            else findBucket pageTops top' (j + 1))
      else None)"
  by pat_completeness auto
termination
  by (relation "measure (\<lambda>(pageTops, top', j). length pageTops - j)") auto

declare findBucket.simps [simp del]

text \<open>The outer loop, over the content elements; \<open>pagesWithContent\<close> is the \<^verbatim>\<open>Set\<close>.\<close>

function collectPages :: "element list \<Rightarrow> jsnum list \<Rightarrow> nat \<Rightarrow> nat set \<Rightarrow> nat set" where
  "collectPages contentElements pageTops i pagesWithContent =
     (if int i < int (length contentElements) - 1
      then collectPages contentElements pageTops (i + 1)
             (case findBucket pageTops (offsetTop (contentElements ! i)) 0 of
                Some p \<Rightarrow> insert p pagesWithContent
              | None \<Rightarrow> pagesWithContent)
      else pagesWithContent)"
  by pat_completeness auto
termination
  by (relation "measure (\<lambda>(contentElements, pageTops, i, pagesWithContent).
                           length contentElements - i)") auto

declare collectPages.simps [simp del]

definition maxPageOf :: "nat set \<Rightarrow> nat" where
  "maxPageOf pagesWithContent = (if card pagesWithContent > 0 then Max pagesWithContent else 0)"

text \<open>
  What \<^verbatim>\<open>refreshPage\<close> writes: the container's \<^verbatim>\<open>min-height\<close> in pixels, the index of
  the child of the pages element that gets the class \<^verbatim>\<open>last-page\<close> (if it exists), and
  the width, left and right margin set on every breaker.
\<close>

record refreshed =
  minHeight :: real
  lastPage :: "nat option"
  breaker_style :: "real \<times> real \<times> real"

definition refreshPage :: "PaginationPlusOptions \<Rightarrow> element list \<Rightarrow> refreshed option" where
  "refreshPage opts targetNode_children =
     (case List.find (\<lambda>child. el_id child = ''pages'') targetNode_children of
        None \<Rightarrow> None
      | Some target \<Rightarrow>
          (let contentElements = targetNode_children;
               pageTops = pageTopsOf (page_offsetTops target);
               pagesWithContent = collectPages contentElements pageTops 2 {};
               maxPage = maxPageOf pagesWithContent;
               maxPage' = maxPage + 2;
               pageMarginLeft' = pageMarginLeft opts;
               pageMarginRight' = pageMarginRight opts
           in Some \<lparr> minHeight =
                        real maxPage' * pageHeight opts
                          + (real maxPage' - 1) * (pageGap opts + 2 * pageGapBorderSize opts),
                      lastPage =
                        (if maxPage + 1 < children_length target then Some (maxPage + 1)
                         else None),
                      breaker_style =
                        (pageMarginLeft' + pageMarginRight', - pageMarginLeft',
                         - pageMarginRight') \<rparr>))"

section \<open>The plugin\<close>

text \<open>
  A transaction carries \<^verbatim>\<open>docChanged\<close>, its metadata and the document it leads to; a
  document is known here by its content size only. A metadata value is read for its
  truthiness alone. The three widgets hold their position and side; their render
  functions read the options object when they run, so a widget does not store it.
\<close>

record EditorState =
  doc_content_size :: nat

record transaction =
  docChanged :: bool
  meta :: "string \<Rightarrow> bool option"
  tr_doc :: nat

definition pagination_meta_key :: string where
  "pagination_meta_key = ''PAGINATION_META_KEY''"

definition resize_meta_key :: string where
  "resize_meta_key = ''RESIZE_META_KEY''"

definition getMeta :: "transaction \<Rightarrow> string \<Rightarrow> bool" where
  "getMeta tr key = (case meta tr key of Some b \<Rightarrow> b | None \<Rightarrow> False)"

definition setMeta :: "string \<Rightarrow> bool \<Rightarrow> transaction \<Rightarrow> transaction" where
  "setMeta key b tr = tr\<lparr>meta := (meta tr)(key \<mapsto> b)\<rparr>"

definition state_tr :: "EditorState \<Rightarrow> transaction" where
  "state_tr st = \<lparr> docChanged = False, meta = Map.empty, tr_doc = doc_content_size st \<rparr>"

datatype widgetKind = PageWidget | FirstHeaderWidget | LastFooterWidget

record widget =
  w_pos :: nat
  w_kind :: widgetKind
  w_side :: int

definition createDecoration :: "EditorState \<Rightarrow> PaginationPlusOptions \<Rightarrow> widget list" where
  "createDecoration st pageOptions =
     (let pageWidget = \<lparr> w_pos = 0, w_kind = PageWidget, w_side = - 1 \<rparr>;
          firstHeaderWidget = \<lparr> w_pos = 0, w_kind = FirstHeaderWidget, w_side = - 1 \<rparr>;
          lastFooterWidget =
            \<lparr> w_pos = doc_content_size st, w_kind = LastFooterWidget, w_side = 1 \<rparr>
      in [pageWidget, firstHeaderWidget, lastFooterWidget])"

text \<open>
  Decoration sets are objects: they live in a store (a list, an object's reference being
  its index), so that returning the old set and building an equal new one differ.
\<close>

record decorationSet =
  ds_doc :: nat
  ds_widgets :: "widget list"

definition DecorationSet_create ::
  "nat \<Rightarrow> widget list \<Rightarrow> decorationSet list \<Rightarrow> nat \<times> decorationSet list" where
  "DecorationSet_create d ws store =
     (length store, store @ [\<lparr> ds_doc = d, ds_widgets = ws \<rparr>])"

text \<open>\<^verbatim>\<open>apply(tr, oldDeco, oldState, newState)\<close> of the responsive revision.\<close>

definition plugin_apply ::
  "PaginationPlusOptions \<Rightarrow> transaction \<Rightarrow> nat \<Rightarrow> EditorState \<Rightarrow> EditorState
     \<Rightarrow> decorationSet list \<Rightarrow> nat \<times> decorationSet list" where
  "plugin_apply pageOptions tr oldDeco oldState newState store =
     (if docChanged tr \<or> getMeta tr pagination_meta_key \<or> getMeta tr resize_meta_key
      then (let widgetList = createDecoration newState pageOptions
            in DecorationSet_create (doc_content_size newState) widgetList store)
      else (oldDeco, store))"

text \<open>The same in \<^verbatim>\<open>PaginationPlus.ts\<close>, which knows the pagination key only.\<close>

definition plugin_apply_ts ::
  "PaginationPlusOptions \<Rightarrow> transaction \<Rightarrow> nat \<Rightarrow> EditorState \<Rightarrow> EditorState
     \<Rightarrow> decorationSet list \<Rightarrow> nat \<times> decorationSet list" where
  "plugin_apply_ts pageOptions tr oldDeco oldState newState store =
     (if docChanged tr \<or> getMeta tr pagination_meta_key
      then (let widgetList = createDecoration newState pageOptions
            in DecorationSet_create (doc_content_size newState) widgetList store)
      else (oldDeco, store))"

section \<open>The extension and its commands\<close>

text \<open>
  The four options that \<^verbatim>\<open>updatePageMargins\<close> assigns can come to hold a number that
  is not finite: the checks let \<open>NaN\<close> and \<open>Infinity\<close> through. The options record
  keeps finite numbers; \<open>nonfinite\<close> says which of the four options holds a number
  that is not finite at the moment, and which one. For such an option the number in the
  record is the last finite one it held and is not read as its value.

  The injected style sheet is a fixed text with five numbers spliced in; it is kept as
  those five numbers, with the options that are not finite beside them.
  \<open>styleElement\<close> is \<open>None\<close> while \<^verbatim>\<open>storage.styleElement\<close> is \<^verbatim>\<open>null\<close>. Console
  output is left out.
\<close>

datatype optionName = PageMarginLeft | PageMarginRight | PageHeaderHeight | PageFooterHeight

record styleText =
  css_pageHeaderHeight :: real
  css_pageFooterHeight :: real
  css_pageMarginLeft :: real
  css_pageMarginRight :: real
  css_pageHeight :: real
  css_nonfinite :: "optionName \<rightharpoonup> jsnum"

record extension =
  options :: PaginationPlusOptions
  nonfinite :: "optionName \<rightharpoonup> jsnum"
  styleElement :: "styleText option"
  editor_state :: EditorState
  pluginState :: nat
  decoStore :: "decorationSet list"
  editor_view :: view

definition updateStyles :: "extension \<Rightarrow> extension" where
  "updateStyles ext =
     (case styleElement ext of
        None \<Rightarrow> ext
      | Some _ \<Rightarrow>
          (let pageHeaderHeight' = pageHeaderHeight (options ext);
               pageFooterHeight' = pageFooterHeight (options ext);
               pageMarginLeft' = pageMarginLeft (options ext);
               pageMarginRight' = pageMarginRight (options ext);
               pageHeight' = pageHeight (options ext) - (pageHeaderHeight' + pageFooterHeight')
           in ext\<lparr>styleElement :=
                    Some \<lparr> css_pageHeaderHeight = pageHeaderHeight',
                           css_pageFooterHeight = pageFooterHeight',
                           css_pageMarginLeft = pageMarginLeft',
                           css_pageMarginRight = pageMarginRight',
                           css_pageHeight = pageHeight',
                           css_nonfinite = nonfinite ext \<rparr>\<rparr>))"

text \<open>
  The page widget drawn for an extension. When the header or the footer height is not
  finite, \<^verbatim>\<open>_pageHeight\<close> and \<^verbatim>\<open>actualPageContentHeight\<close> are \<open>NaN\<close> or infinite of
  the same sign: with \<open>NaN\<close> in one of them every later value is \<open>NaN\<close>; with
  \<open>Infinity\<close> the band is \<open>-Infinity\<close> and the height is \<open>-Infinity\<close>, or \<open>NaN\<close>
  when no page was rendered before (\<^verbatim>\<open>0 * Infinity\<close>). The quotient is \<open>NaN\<close> in each
  case, \<^verbatim>\<open>pages > 0\<close> is false and \<open>pages\<close> is 0. The lengths written into the breaks
  are taken from the options record as it is.
\<close>

definition pageWidget_render :: "extension \<Rightarrow> pageBreak list option" where
  "pageWidget_render ext =
     (if nonfinite ext PageHeaderHeight \<noteq> None \<or> nonfinite ext PageFooterHeight \<noteq> None
      then synthesize (options ext) (Fin 0)
      else pageWidget_toDOM (options ext) (editor_view ext))"

text \<open>
  \<^verbatim>\<open>editor.view.dispatch(tr)\<close> belongs to the editor, not to this repository. It is
  modelled as far as it drives the plugin: the new editor state is the transaction's
  document, the plugin state is what \<open>plugin_apply\<close> returns, and when a new
  decoration set was built (the store has grown) the view draws its page widget, which
  replaces the children of the pagination element. The commands below dispatch
  transactions that only set a metadata key, so the content elements stay as they are.
  \<open>None\<close>: the widget's loop never ends.
\<close>

definition dispatch :: "transaction \<Rightarrow> extension \<Rightarrow> extension option" where
  "dispatch tr ext =
     (let oldState = editor_state ext;
          newState = \<lparr> doc_content_size = tr_doc tr \<rparr>;
          (deco, store) =
            plugin_apply (options ext) tr (pluginState ext) oldState newState (decoStore ext);
          ext' = ext\<lparr>editor_state := newState, pluginState := deco, decoStore := store\<rparr>
      in if store = decoStore ext then Some ext'
         else (case pageWidget_render ext of
                 None \<Rightarrow> None
               | Some breaks \<Rightarrow>
                   Some (ext'\<lparr>editor_view :=
                               (editor_view ext)\<lparr>rm_pagination := Some breaks\<rparr>\<rparr>)))"

text \<open>
  A field of the \<^verbatim>\<open>margins\<close> argument at run time: absent, a number (finite, or
  \<open>Infinity\<close>, \<open>-Infinity\<close> or \<open>NaN\<close>, whose \<^verbatim>\<open>typeof\<close> is \<^verbatim>\<open>"number"\<close> as well), or a
  value whose \<^verbatim>\<open>typeof\<close> is not \<^verbatim>\<open>"number"\<close> (a string, \<^verbatim>\<open>null\<close>, an object).
  \<open>Number x\<close> is the finite number \<open>x\<close>.
\<close>

datatype jsval = Undefined | Num jsnum | NonNumber

abbreviation Number :: "real \<Rightarrow> jsval" where
  "Number x \<equiv> Num (Fin x)"

record MarginUpdate =
  left_m :: jsval
  right_m :: jsval
  top_m :: jsval
  bottom_m :: jsval

fun typeof_number :: "jsval \<Rightarrow> bool" where
  "typeof_number (Num n) = True"
| "typeof_number _ = False"

text \<open>\<^verbatim>\<open>v < 0\<close>: false for \<open>NaN\<close> and for a value that is not a number.\<close>

fun js_negative :: "jsval \<Rightarrow> bool" where
  "js_negative (Num n) = js_lt n (Fin 0)"
| "js_negative _ = False"

text \<open>
  \<^verbatim>\<open>this.options.f = v\<close> for a field that passed the checks: \<open>v\<close> is a number there,
  finite or not. \<open>assigned\<close> is what the options record holds afterwards, \<open>held\<close>
  what \<open>nonfinite\<close> says of the option afterwards.
\<close>

fun assigned :: "jsval \<Rightarrow> real \<Rightarrow> real" where
  "assigned (Num (Fin x)) old = x"
| "assigned _ old = old"

fun held :: "optionName \<Rightarrow> jsval \<Rightarrow> (optionName \<rightharpoonup> jsnum) \<Rightarrow> (optionName \<rightharpoonup> jsnum)" where
  "held f (Num (Fin x)) nf = nf(f := None)"
| "held f (Num n) nf = nf(f \<mapsto> n)"
| "held f _ nf = nf"

definition updatePageMargins :: "MarginUpdate \<Rightarrow> extension \<Rightarrow> (bool \<times> extension) option" where
  "updatePageMargins margins ext =
     (let left = left_m margins; right = right_m margins;
          top' = top_m margins; bottom = bottom_m margins
      in if left \<noteq> Undefined \<and> (\<not> typeof_number left \<or> js_negative left)
         then Some (False, ext)
         else if right \<noteq> Undefined \<and> (\<not> typeof_number right \<or> js_negative right)
         then Some (False, ext)
         else if top' \<noteq> Undefined \<and> (\<not> typeof_number top' \<or> js_negative top')
         then Some (False, ext)
         else if bottom \<noteq> Undefined \<and> (\<not> typeof_number bottom \<or> js_negative bottom)
         then Some (False, ext)
         else
           (let ext = (if left \<noteq> Undefined
                       then ext\<lparr>options := (options ext)
                                  \<lparr>pageMarginLeft := assigned left (pageMarginLeft (options ext))\<rparr>,
                                nonfinite := held PageMarginLeft left (nonfinite ext)\<rparr>
                       else ext);
                ext = (if right \<noteq> Undefined
                       then ext\<lparr>options := (options ext)
                                  \<lparr>pageMarginRight := assigned right (pageMarginRight (options ext))\<rparr>,
                                nonfinite := held PageMarginRight right (nonfinite ext)\<rparr>
                       else ext);
                ext = (if top' \<noteq> Undefined
                       then ext\<lparr>options := (options ext)
                                  \<lparr>pageHeaderHeight := assigned top' (pageHeaderHeight (options ext))\<rparr>,
                                nonfinite := held PageHeaderHeight top' (nonfinite ext)\<rparr>
                       else ext);
                ext = (if bottom \<noteq> Undefined
                       then ext\<lparr>options := (options ext)
                                  \<lparr>pageFooterHeight := assigned bottom (pageFooterHeight (options ext))\<rparr>,
                                nonfinite := held PageFooterHeight bottom (nonfinite ext)\<rparr>
                       else ext);
                ext = updateStyles ext
            in map_option (Pair True)
                 (dispatch (setMeta pagination_meta_key True (state_tr (editor_state ext))) ext)))"

text \<open>
  \<^verbatim>\<open>PaginationPlus.ts\<close> first rejects an argument that is falsy or not an object
  (\<open>None\<close> here) and then goes through the same checks and assignments.
\<close>

definition updatePageMargins_ts ::
  "MarginUpdate option \<Rightarrow> extension \<Rightarrow> (bool \<times> extension) option" where
  "updatePageMargins_ts margins ext =
     (case margins of
        None \<Rightarrow> Some (False, ext)
      | Some m \<Rightarrow> updatePageMargins m ext)"

definition refreshPagination :: "extension \<Rightarrow> (bool \<times> extension) option" where
  "refreshPagination ext =
     map_option (Pair True)
       (dispatch (setMeta resize_meta_key True (state_tr (editor_state ext))) ext)"

text \<open>The breaks on display: the children of the pagination element.\<close>

definition rendered :: "extension \<Rightarrow> pageBreak list" where
  "rendered ext = (case rm_pagination (editor_view ext) of Some bs \<Rightarrow> bs | None \<Rightarrow> [])"

section \<open>What a margin update leaves\<close>

text \<open>
  The options record and the options that are not finite once the four assignments of
  \<^verbatim>\<open>updatePageMargins\<close> are done.
\<close>

definition assignedOptions :: "MarginUpdate \<Rightarrow> PaginationPlusOptions \<Rightarrow> PaginationPlusOptions" where
  "assignedOptions m opts =
     opts\<lparr> pageMarginLeft := assigned (left_m m) (pageMarginLeft opts),
           pageMarginRight := assigned (right_m m) (pageMarginRight opts),
           pageHeaderHeight := assigned (top_m m) (pageHeaderHeight opts),
           pageFooterHeight := assigned (bottom_m m) (pageFooterHeight opts) \<rparr>"

definition heldNonfinite ::
  "MarginUpdate \<Rightarrow> (optionName \<rightharpoonup> jsnum) \<Rightarrow> (optionName \<rightharpoonup> jsnum)" where
  "heldNonfinite m nf =
     held PageFooterHeight (bottom_m m)
       (held PageHeaderHeight (top_m m)
          (held PageMarginRight (right_m m)
             (held PageMarginLeft (left_m m) nf)))"

section \<open>Valid geometry\<close>

text \<open>
  The invariant the specification puts on a geometry configuration: no negative height,
  gap or margin, and a content band of positive height. The code does not check it.
\<close>

definition validGeometry :: "PaginationPlusOptions \<Rightarrow> bool" where
  "validGeometry g =
     (0 \<le> pageHeight g \<and> 0 \<le> pageGap g \<and> 0 \<le> pageGapBorderSize g
      \<and> 0 \<le> pageHeaderHeight g \<and> 0 \<le> pageFooterHeight g
      \<and> 0 \<le> pageMarginLeft g \<and> 0 \<le> pageMarginRight g
      \<and> pageHeaderHeight g + pageFooterHeight g < pageHeight g)"

section \<open>The estimate in exact numbers\<close>


text \<open>
  Whole numbers of pixels, up to \<open>2 ^ 24\<close>: what the default options are, and what the
  browser reports for a scroll height.
\<close>

definition wholePixels :: "real \<Rightarrow> bool" where
  "wholePixels x = (of_int \<lfloor>x\<rfloor> = x \<and> \<bar>x\<bar> \<le> 2 ^ 24)"

definition wholeGeometry :: "PaginationPlusOptions \<Rightarrow> bool" where
  "wholeGeometry g =
     (wholePixels (pageHeight g) \<and> wholePixels (pageGap g)
      \<and> wholePixels (pageHeaderHeight g) \<and> wholePixels (pageFooterHeight g)
      \<and> wholePixels (pageGapBorderSize g))"


section \<open>Number to string\<close>

text \<open>
  \<^verbatim>\<open>"Page " + i\<close> turns the page number into its decimal digits.
\<close>

definition digit_char :: "nat \<Rightarrow> char" where
  "digit_char n = ''0123456789'' ! n"

function js_String :: "nat \<Rightarrow> string" where
  "js_String n =
     (if n < 10 then [digit_char n] else js_String (n div 10) @ [digit_char (n mod 10)])"
  by pat_completeness auto
termination
  by (relation "measure id") auto

declare js_String.simps [simp del]

section \<open>Sample trees\<close>

text \<open>
  Elements for concrete runs: the pages element with the tops of its page bodies and the
  number of its children, and a plain block at a given top offset and of a given height.
\<close>

definition pagesElement :: "real list \<Rightarrow> nat \<Rightarrow> element" where
  "pagesElement tops n =
     \<lparr> el_id = ''pages'', scrollHeight = 0, offsetTop = 0, page_offsetTops = tops,
       children_length = n \<rparr>"

definition block :: "real \<Rightarrow> real \<Rightarrow> element" where
  "block t h =
     \<lparr> el_id = [], scrollHeight = h, offsetTop = t, page_offsetTops = [],
       children_length = 0 \<rparr>"

section \<open>Two refreshes in succession\<close>



section \<open>Sample states\<close>

text \<open>
  An extension with the default options over a given tree and given breaks on display; a
  margins argument from its four fields; the first \<open>n\<close> breaks of the default options;
  a tree with one content block of height 10000 between the two spacers.
\<close>

definition sampleExtension :: "element list \<Rightarrow> pageBreak list option \<Rightarrow> extension" where
  "sampleExtension cs prev =
     \<lparr> options = addOptions,
       nonfinite = Map.empty,
       styleElement = None,
       editor_state = \<lparr> doc_content_size = 2 \<rparr>,
       pluginState = 0,
       decoStore =
         [\<lparr> ds_doc = 2, ds_widgets = createDecoration \<lparr> doc_content_size = 2 \<rparr> addOptions \<rparr>],
       editor_view = \<lparr> dom_children = cs, rm_pagination = prev \<rparr> \<rparr>"

definition marginsOnly :: "jsval \<Rightarrow> jsval \<Rightarrow> jsval \<Rightarrow> jsval \<Rightarrow> MarginUpdate" where
  "marginsOnly l r t b = \<lparr> left_m = l, right_m = r, top_m = t, bottom_m = b \<rparr>"

definition breaksUpTo :: "nat \<Rightarrow> pageBreak list" where
  "breaksUpTo n = map (\<lambda>k. createPageBreak (k = 0) k addOptions) [0 ..< n]"


section \<open>Rounding\<close>

lemma halvings_bounds:
  "1 \<le> x \<Longrightarrow> 2 ^ halvings x \<le> x \<and> x < 2 ^ (halvings x + 1)"
proof (induction x rule: halvings.induct)
  case (1 x)
  show ?case
  proof (cases "2 \<le> x")
    case True
    then have h: "halvings x = Suc (halvings (x / 2))"
      by (subst halvings.simps) simp
    have "1 \<le> x / 2"
      using True by simp
    then have "2 ^ halvings (x / 2) \<le> x / 2 \<and> x / 2 < 2 ^ (halvings (x / 2) + 1)"
      using "1.IH" [OF True] by blast
    then show ?thesis
      unfolding h by simp
  next
    case False
    then have h: "halvings x = 0"
      by (subst halvings.simps) simp
    show ?thesis
      unfolding h using False "1.prems" by simp
  qed
qed

lemma doublings_bounds:
  "0 < x \<Longrightarrow> x < 1 \<Longrightarrow> 1 \<le> x * 2 ^ doublings x \<and> x * 2 ^ doublings x < 2"
proof (induction x rule: doublings.induct)
  case (1 x)
  have c: "0 < x \<and> x < 1"
    using "1.prems" by simp
  then have d: "doublings x = Suc (doublings (2 * x))"
    by (subst doublings.simps) simp
  show ?case
  proof (cases "2 * x < 1")
    case True
    have "1 \<le> 2 * x * 2 ^ doublings (2 * x) \<and> 2 * x * 2 ^ doublings (2 * x) < 2"
      using "1.IH" [OF c] True c by simp
    then show ?thesis
      unfolding d by (simp add: mult.assoc mult.left_commute)
  next
    case False
    then have "doublings (2 * x) = 0"
      by (subst doublings.simps) simp
    then show ?thesis
      unfolding d using False c by simp
  qed
qed

lemma ilog2_lower:
  assumes "0 < x"
  shows "2 powi ilog2 x \<le> x"
proof (cases "1 \<le> x")
  case True
  then show ?thesis
    using halvings_bounds [OF True] by (simp add: ilog2_def)
next
  case False
  then have x1: "x < 1" by simp
  have "1 \<le> x * 2 ^ doublings x"
    using doublings_bounds [OF assms x1] by blast
  then have "1 / 2 ^ doublings x \<le> x"
    by (simp add: field_simps)
  then show ?thesis
    using False by (simp add: ilog2_def power_int_minus field_simps)
qed

lemma ilog2_upper:
  assumes "0 < x"
  shows "x < 2 powi (ilog2 x + 1)"
proof (cases "1 \<le> x")
  case True
  have "x < 2 ^ (halvings x + 1)"
    using halvings_bounds [OF True] by blast
  moreover have "(2::real) powi (int (halvings x) + 1) = 2 ^ (halvings x + 1)"
    by (simp add: power_int_add)
  ultimately show ?thesis
    using True by (simp add: ilog2_def)
next
  case False
  then have x1: "x < 1" by simp
  have b: "x * 2 ^ doublings x < 2"
    using doublings_bounds [OF assms x1] by blast
  have "(2::real) powi (1 - int (doublings x)) = 2 powi 1 / 2 powi int (doublings x)"
    by (rule power_int_diff) simp
  then have "(2::real) powi (- int (doublings x) + 1) = 2 / 2 ^ doublings x"
    by simp
  moreover have "x < 2 / 2 ^ doublings x"
    using b by (simp add: field_simps)
  ultimately show ?thesis
    using False by (simp add: ilog2_def)
qed


lemma round_even_of_int: "round_even (of_int n) = n"
  by (simp add: round_even_def)



lemma ilog2_int_small:
  assumes "0 < x" and "x < 2 ^ 53"
  shows "ilog2 x \<le> 52"
proof (rule ccontr)
  assume "\<not> ilog2 x \<le> 52"
  then have "53 \<le> ilog2 x"
    by simp
  then have "(2::real) powi 53 \<le> 2 powi ilog2 x"
    by (intro power_int_increasing) simp_all
  then have "2 ^ 53 \<le> x"
    using ilog2_lower [OF assms(1)] by simp
  then show False
    using assms(2) by simp
qed

lemma fl_of_int:
  assumes "\<bar>n\<bar> < 2 ^ 53"
  shows "fl (of_int n) = of_int n"
proof (cases "n = 0")
  case True
  then show ?thesis
    by (simp add: fl_def)
next
  case False
  define x :: real where "x = of_int n"
  have x0: "x \<noteq> 0" and ax: "0 < \<bar>x\<bar>"
    using False by (simp_all add: x_def)
  have "\<bar>x\<bar> = of_int \<bar>n\<bar>"
    by (simp add: x_def)
  also have "\<dots> < of_int (2 ^ 53)"
    using assms by (simp only: of_int_less_iff)
  finally have "\<bar>x\<bar> < 2 ^ 53"
    by simp
  then have e: "ilog2 \<bar>x\<bar> \<le> 52"
    using ilog2_int_small [OF ax] by simp
  define k where "k = nat (52 - ilog2 \<bar>x\<bar>)"
  have "ilog2 \<bar>x\<bar> - 52 = - int k"
    using e by (simp add: k_def)
  then have "(2::real) powi (ilog2 \<bar>x\<bar> - 52) = 2 powi (- int k)"
    by simp
  also have "\<dots> = inverse (2 powi int k)"
    by (rule power_int_minus)
  finally have u: "(2::real) powi (ilog2 \<bar>x\<bar> - 52) = 1 / 2 ^ k"
    by (simp add: field_simps)
  have "\<bar>x\<bar> / (1 / 2 ^ k) = of_int (\<bar>n\<bar> * 2 ^ k)"
    by (simp add: x_def)
  then have "round_even (\<bar>x\<bar> / (1 / 2 ^ k)) = \<bar>n\<bar> * 2 ^ k"
    by (simp only: round_even_of_int)
  then have "fl x = sgn x * of_int (\<bar>n\<bar> * 2 ^ k) * (1 / 2 ^ k)"
    using x0 by (simp add: fl_def Let_def u)
  also have "\<dots> = sgn x * \<bar>x\<bar>"
    by (simp add: x_def)
  also have "\<dots> = x"
    by (simp add: sgn_mult_abs)
  finally show ?thesis
    by (simp add: x_def)
qed

text \<open>A whole number rounds to a whole number, and a natural number to a natural one.\<close>

lemma fl_natural:
  assumes "0 \<le> n"
  shows "\<exists>m. fl (of_int n) = real m"
proof (cases "n < 2 ^ 53")
  case True
  then have "fl (of_int n) = of_int n"
    using assms by (intro fl_of_int) simp
  then have "fl (of_int n) = real (nat n)"
    using assms by simp
  then show ?thesis
    by blast
next
  case False
  define x :: real where "x = of_int n"
  have "(2::int) ^ 53 \<le> n"
    using False by simp
  then have "of_int ((2::int) ^ 53) \<le> x"
    unfolding x_def by (simp only: of_int_le_iff)
  then have big: "2 ^ 53 \<le> x"
    by simp
  then have x0: "0 < x"
    by (rule less_le_trans [rotated]) simp
  have up: "2 ^ 53 < (2::real) powi (ilog2 x + 1)"
    using big ilog2_upper [OF x0] by simp
  have e: "0 \<le> ilog2 x - 52"
  proof (rule ccontr)
    assume "\<not> 0 \<le> ilog2 x - 52"
    then have "ilog2 x + 1 \<le> 53"
      by simp
    then have "(2::real) powi (ilog2 x + 1) \<le> 2 powi 53"
      by (intro power_int_increasing) simp_all
    then show False
      using up by simp
  qed
  define k where "k = nat (ilog2 x - 52)"
  have u: "(2::real) powi (ilog2 x - 52) = 2 ^ k"
    using e by (simp add: k_def power_int_def)
  have "0 \<le> round_even (x / 2 ^ k)"
  proof -
    have "0 \<le> x / 2 ^ k"
      using x0 by simp
    then have "0 \<le> \<lfloor>x / 2 ^ k\<rfloor>"
      by simp
    then show ?thesis
      by (simp add: round_even_def Let_def)
  qed
  then have "of_int (round_even (x / 2 ^ k)) * (2::real) ^ k
             = real (nat (round_even (x / 2 ^ k)) * 2 ^ k)"
    by simp
  moreover have "fl x = of_int (round_even (x / 2 ^ k)) * 2 ^ k"
    using x0 by (simp add: fl_def Let_def u)
  ultimately show ?thesis
    unfolding x_def by metis
qed



text \<open>
  Rounding keeps the order: a number between \<open>2 ^ e\<close> and \<open>2 ^ (e + 1)\<close> is rounded
  to a double between the same two, and within one binade rounding to the nearest multiple
  keeps the order.
\<close>

lemma round_even_mono:
  assumes "r \<le> s"
  shows "round_even r \<le> round_even s"
proof (cases "\<lfloor>r\<rfloor> = \<lfloor>s\<rfloor>")
  case True
  then show ?thesis
    using assms unfolding round_even_def Let_def by (auto; linarith)
next
  case False
  have "\<lfloor>r\<rfloor> \<le> \<lfloor>s\<rfloor>"
    using assms by (rule floor_mono)
  then have lt: "\<lfloor>r\<rfloor> + 1 \<le> \<lfloor>s\<rfloor>"
    using False by simp
  have "round_even r \<le> \<lfloor>r\<rfloor> + 1"
    unfolding round_even_def Let_def by simp
  moreover have "\<lfloor>s\<rfloor> \<le> round_even s"
    unfolding round_even_def Let_def by simp
  ultimately show ?thesis
    using lt by linarith
qed

lemma fl_minus: "fl (- x) = - fl x"
  by (simp add: fl_def Let_def sgn_minus)

lemma fl_zero: "fl 0 = 0"
  by (simp add: fl_def)

lemma ulp_scaled:
  assumes "0 < x"
  shows "2 ^ 52 \<le> x / 2 powi (ilog2 x - 52)" and "x / 2 powi (ilog2 x - 52) < 2 ^ 53"
proof -
  define e where "e = ilog2 x"
  define u :: real where "u = 2 powi (e - 52)"
  have u: "0 < u"
    by (simp add: u_def)
  have lo: "u * 2 ^ 52 = 2 powi e"
  proof -
    have "u * 2 ^ 52 = 2 powi (e - 52) * 2 powi 52"
      by (simp add: u_def)
    also have "\<dots> = 2 powi (e - 52 + 52)"
      by (rule power_int_add [symmetric]) simp
    finally show ?thesis
      by simp
  qed
  have hi: "u * 2 ^ 53 = 2 powi (e + 1)"
  proof -
    have "u * 2 ^ 53 = 2 powi (e - 52) * 2 powi 53"
      by (simp add: u_def)
    also have "\<dots> = 2 powi (e - 52 + 53)"
      by (rule power_int_add [symmetric]) simp
    also have "e - 52 + 53 = e + 1"
      by simp
    finally show ?thesis .
  qed
  have "u * 2 ^ 52 \<le> x"
    unfolding lo e_def using assms by (rule ilog2_lower)
  then show "2 ^ 52 \<le> x / 2 powi (ilog2 x - 52)"
    using u by (simp add: u_def e_def pos_le_divide_eq mult.commute)
  have "x < u * 2 ^ 53"
    unfolding hi e_def using assms by (rule ilog2_upper)
  then show "x / 2 powi (ilog2 x - 52) < 2 ^ 53"
    using u by (simp add: u_def e_def pos_divide_less_eq mult.commute)
qed

lemma fl_pos:
  assumes "0 < x"
  shows "fl x = of_int (round_even (x / 2 powi (ilog2 x - 52))) * 2 powi (ilog2 x - 52)"
  using assms by (simp add: fl_def Let_def)

lemma fl_pos_bounds:
  assumes "0 < x"
  shows "2 powi ilog2 x \<le> fl x" and "fl x \<le> 2 powi (ilog2 x + 1)"
proof -
  define e where "e = ilog2 x"
  define u :: real where "u = 2 powi (e - 52)"
  define k where "k = round_even (x / u)"
  have u: "0 < u"
    by (simp add: u_def)
  have f: "fl x = of_int k * u"
    unfolding k_def u_def e_def using assms by (rule fl_pos)
  have "round_even (of_int (2 ^ 52)) \<le> round_even (x / u)"
    using ulp_scaled(1) [OF assms] by (intro round_even_mono) (simp add: u_def e_def)
  then have k1: "2 ^ 52 \<le> k"
    unfolding round_even_of_int k_def .
  have "round_even (x / u) \<le> round_even (of_int (2 ^ 53))"
    using ulp_scaled(2) [OF assms] by (intro round_even_mono) (simp add: u_def e_def)
  then have k2: "k \<le> 2 ^ 53"
    unfolding round_even_of_int k_def .
  have lo: "2 ^ 52 * u = 2 powi e"
  proof -
    have "2 ^ 52 * u = 2 powi 52 * 2 powi (e - 52)"
      by (simp add: u_def)
    also have "\<dots> = 2 powi (52 + (e - 52))"
      by (rule power_int_add [symmetric]) simp
    finally show ?thesis
      by simp
  qed
  have hi: "2 ^ 53 * u = 2 powi (e + 1)"
  proof -
    have "2 ^ 53 * u = 2 powi 53 * 2 powi (e - 52)"
      by (simp add: u_def)
    also have "\<dots> = 2 powi (53 + (e - 52))"
      by (rule power_int_add [symmetric]) simp
    also have "53 + (e - 52) = e + 1"
      by simp
    finally show ?thesis .
  qed
  have "(of_int (2 ^ 52) :: real) \<le> of_int k"
    using k1 by (simp only: of_int_le_iff)
  then have "(2 ^ 52 :: real) \<le> of_int k"
    by simp
  then have "2 ^ 52 * u \<le> of_int k * u"
    using u by (intro mult_right_mono) simp_all
  then show "2 powi ilog2 x \<le> fl x"
    unfolding f lo e_def .
  have "(of_int k :: real) \<le> of_int (2 ^ 53)"
    using k2 by (simp only: of_int_le_iff)
  then have "of_int k \<le> (2 ^ 53 :: real)"
    by simp
  then have "of_int k * u \<le> 2 ^ 53 * u"
    using u by (intro mult_right_mono) simp_all
  then show "fl x \<le> 2 powi (ilog2 x + 1)"
    unfolding f hi e_def .
qed

lemma ilog2_mono:
  assumes "0 < x" and "x \<le> y"
  shows "ilog2 x \<le> ilog2 y"
proof (rule ccontr)
  assume "\<not> ilog2 x \<le> ilog2 y"
  then have "ilog2 y + 1 \<le> ilog2 x"
    by simp
  then have "(2::real) powi (ilog2 y + 1) \<le> 2 powi ilog2 x"
    by (intro power_int_increasing) simp_all
  also have "\<dots> \<le> x"
    using assms(1) by (rule ilog2_lower)
  also have "\<dots> \<le> y"
    by (rule assms(2))
  finally have "2 powi (ilog2 y + 1) \<le> y" .
  moreover have "y < 2 powi (ilog2 y + 1)"
    using assms by (intro ilog2_upper) simp
  ultimately show False
    by simp
qed

lemma fl_mono_pos:
  assumes "0 < x" and "x \<le> y"
  shows "fl x \<le> fl y"
proof (cases "ilog2 x = ilog2 y")
  case True
  define u :: real where "u = 2 powi (ilog2 y - 52)"
  have u: "0 < u"
    by (simp add: u_def)
  have y: "0 < y"
    using assms by simp
  have "x / u \<le> y / u"
    using assms(2) u by (simp add: divide_right_mono)
  then have "round_even (x / u) \<le> round_even (y / u)"
    by (rule round_even_mono)
  then have "(of_int (round_even (x / u)) :: real) \<le> of_int (round_even (y / u))"
    by simp
  then have "of_int (round_even (x / u)) * u \<le> of_int (round_even (y / u)) * u"
    using u by (intro mult_right_mono) simp_all
  then show ?thesis
    unfolding fl_pos [OF assms(1)] fl_pos [OF y] True u_def .
next
  case False
  have y: "0 < y"
    using assms by simp
  have "ilog2 x \<le> ilog2 y"
    using assms by (rule ilog2_mono)
  then have "ilog2 x + 1 \<le> ilog2 y"
    using False by simp
  then have "(2::real) powi (ilog2 x + 1) \<le> 2 powi ilog2 y"
    by (intro power_int_increasing) simp_all
  moreover have "fl x \<le> 2 powi (ilog2 x + 1)"
    using assms(1) by (rule fl_pos_bounds)
  moreover have "2 powi ilog2 y \<le> fl y"
    using y by (rule fl_pos_bounds)
  ultimately show ?thesis
    by linarith
qed

lemma fl_nonneg:
  assumes "0 \<le> x"
  shows "0 \<le> fl x"
proof (cases "x = 0")
  case True
  then show ?thesis
    by (simp add: fl_zero)
next
  case False
  then have x: "0 < x"
    using assms by simp
  have "(0::real) \<le> 2 powi ilog2 x"
    by simp
  also have "\<dots> \<le> fl x"
    using x by (rule fl_pos_bounds)
  finally show ?thesis .
qed

lemma fl_mono:
  assumes "x \<le> y"
  shows "fl x \<le> fl y"
proof -
  consider "0 < x" | "x \<le> 0" "0 \<le> y" | "y < 0"
    by linarith
  then show ?thesis
  proof cases
    case 1
    then show ?thesis
      using assms by (rule fl_mono_pos)
  next
    case 2
    have "0 \<le> fl (- x)"
      using 2(1) by (intro fl_nonneg) simp
    then have "fl x \<le> 0"
      by (simp add: fl_minus)
    moreover have "0 \<le> fl y"
      using 2(2) by (rule fl_nonneg)
    ultimately show ?thesis
      by simp
  next
    case 3
    have "fl (- y) \<le> fl (- x)"
      using 3 assms by (intro fl_mono_pos) simp_all
    then show ?thesis
      by (simp add: fl_minus)
  qed
qed

lemma fl_positive:
  assumes "0 < x"
  shows "0 < fl x"
proof -
  have "(0::real) < 2 powi ilog2 x"
    by simp
  also have "\<dots> \<le> fl x"
    using assms by (rule fl_pos_bounds)
  finally show ?thesis .
qed


section \<open>The page count on exact numbers\<close>




lemma js_le_Fin: "js_le (Fin a) (Fin b) = (a \<le> b)"
  by auto




section \<open>The page count in doubles\<close>

lemma fl_whole:
  assumes "x = of_int n" and "\<bar>n\<bar> < 2 ^ 53"
  shows "fl x = of_int n"
  using fl_of_int [OF assms(2)] assms(1) by simp

lemma wholePixels_int:
  assumes "wholePixels x"
  obtains n :: int where "x = of_int n" and "\<bar>n\<bar> \<le> 16777216"
proof -
  have w: "of_int \<lfloor>x\<rfloor> = x \<and> \<bar>x\<bar> \<le> 2 ^ 24"
    using assms unfolding wholePixels_def .
  have x: "x = of_int \<lfloor>x\<rfloor>"
    using w by (rule conjunct1 [THEN sym])
  have b: "\<bar>x\<bar> \<le> 2 ^ 24"
    using w by (rule conjunct2)
  have "(of_int \<bar>\<lfloor>x\<rfloor>\<bar> :: real) \<le> of_int 16777216"
    using x b by simp
  then have "\<bar>\<lfloor>x\<rfloor>\<bar> \<le> 16777216"
    by (simp only: of_int_le_iff)
  then show ?thesis
    using x that by blast
qed











text \<open>
  In doubles, too, the count does not decrease when the sampled height grows, for a
  band whose computed height is not negative: every operation on the way from the height
  to the count keeps the order. A valid geometry whose page height is a double has such a
  band.
\<close>

lemma bandHeight_nonneg:
  assumes "validGeometry g" and "fl (pageHeight g) = pageHeight g"
  shows "0 \<le> bandHeight g"
proof -
  have "pageHeaderHeight g + pageFooterHeight g \<le> pageHeight g"
    using assms(1) by (simp add: validGeometry_def)
  then have "fl (pageHeaderHeight g + pageFooterHeight g) \<le> fl (pageHeight g)"
    by (rule fl_mono)
  then have "0 \<le> pageHeight g - fl (pageHeaderHeight g + pageFooterHeight g)"
    by (simp add: assms(2))
  then show ?thesis
    unfolding bandHeight_def by (rule fl_nonneg)
qed

lemma pageCount_double_monotone:
  assumes "0 \<le> bandHeight g" and "H1 \<le> H2"
  shows "js_le (pageCount_double g H1 p) (pageCount_double g H2 p)"
proof -
  define ov where
    "ov = fl (of_int (if p > 5 then p - 5 else 0)
               * fl (fl (fl (pageGap g + pageHeaderHeight g) + pageFooterHeight g)
                     + fl (pageGapBorderSize g * 2)))"
  define B where "B = bandHeight g"
  define A1 where "A1 = fl (H1 - ov)"
  define A2 where "A2 = fl (H2 - ov)"
  have A: "A1 \<le> A2"
    unfolding A1_def A2_def using assms(2) by (intro fl_mono) simp
  have d1: "pageCount_double g H1 p =
             (if js_gt (Math_ceil (js_div_double A1 B)) (Fin 0)
              then js_round (js_add (Math_ceil (js_div_double A1 B)) (Fin (- 1)))
              else Fin 0)"
    unfolding pageCount_double_def Let_def A1_def ov_def B_def bandHeight_def ..
  have d2: "pageCount_double g H2 p =
             (if js_gt (Math_ceil (js_div_double A2 B)) (Fin 0)
              then js_round (js_add (Math_ceil (js_div_double A2 B)) (Fin (- 1)))
              else Fin 0)"
    unfolding pageCount_double_def Let_def A2_def ov_def B_def bandHeight_def ..
  show ?thesis
  proof (cases "B = 0")
    case True
    have z: "\<And>A. (if js_gt (Math_ceil (js_div_double A B)) (Fin 0)
              then js_round (js_add (Math_ceil (js_div_double A B)) (Fin (- 1)))
              else Fin 0) = (if 0 < A then PosInf else Fin 0)"
      using True by (simp add: js_div_double_def js_gt_def)
    show ?thesis
      unfolding d1 d2 z using A by simp
  next
    case False
    then have B: "0 < B"
      using assms(1) by (simp add: B_def)
    define c1 where "c1 = \<lceil>fl (A1 / B)\<rceil>"
    define c2 where "c2 = \<lceil>fl (A2 / B)\<rceil>"
    have "A1 / B \<le> A2 / B"
      using A B by (simp add: divide_right_mono)
    then have "fl (A1 / B) \<le> fl (A2 / B)"
      by (rule fl_mono)
    then have c: "c1 \<le> c2"
      unfolding c1_def c2_def by (rule ceiling_mono)
    have m1: "Math_ceil (js_div_double A1 B) = Fin (of_int c1)"
      using False by (simp add: js_div_double_def c1_def)
    have m2: "Math_ceil (js_div_double A2 B) = Fin (of_int c2)"
      using False by (simp add: js_div_double_def c2_def)
    have r1: "pageCount_double g H1 p = Fin (if 0 < c1 then fl (of_int (c1 - 1)) else 0)"
      unfolding d1 m1 by (simp add: js_gt_def)
    have r2: "pageCount_double g H2 p = Fin (if 0 < c2 then fl (of_int (c2 - 1)) else 0)"
      unfolding d2 m2 by (simp add: js_gt_def)
    have "(if 0 < c1 then fl (of_int (c1 - 1)) else 0) \<le> (if 0 < c2 then fl (of_int (c2 - 1)) else 0)"
    proof (cases "0 < c1")
      case True
      then have "0 < c2"
        using c by simp
      moreover have "fl (of_int (c1 - 1)) \<le> fl (of_int (c2 - 1))"
        using c by (intro fl_mono) simp
      ultimately show ?thesis
        using True by simp
    next
      case False
      have "0 < c2 \<Longrightarrow> 0 \<le> fl (of_int (c2 - 1))"
        by (intro fl_nonneg) simp
      then show ?thesis
        using False by auto
    qed
    then show ?thesis
      unfolding r1 r2 js_le_Fin .
  qed
qed

lemma pageCount_double_monotone_valid:
  assumes "validGeometry g" and "fl (pageHeight g) = pageHeight g" and "H1 \<le> H2"
  shows "js_le (pageCount_double g H1 p) (pageCount_double g H2 p)"
  using bandHeight_nonneg [OF assms(1,2)] assms(3) by (rule pageCount_double_monotone)

section \<open>The synthesised breaks\<close>

lemma appendPageBreaks_eq:
  "appendPageBreaks g b i fr
   = fr @ map (\<lambda>k. createPageBreak (k = 0) k g) [i ..< nat \<lceil>b\<rceil>]"
proof (induction g b i fr rule: appendPageBreaks.induct)
  case (1 g b i fr)
  show ?case
  proof (cases "real i < b")
    case True
    then have "int i < \<lceil>b\<rceil>" by linarith
    then have lt: "i < nat \<lceil>b\<rceil>" by linarith
    have "appendPageBreaks g b i fr
          = appendPageBreaks g b (i + 1) (fr @ [createPageBreak (i = 0) i g])"
      using True by (subst appendPageBreaks.simps) simp
    also have "\<dots> = (fr @ [createPageBreak (i = 0) i g])
                    @ map (\<lambda>k. createPageBreak (k = 0) k g) [i + 1 ..< nat \<lceil>b\<rceil>]"
      using "1.IH" [OF True] .
    also have "\<dots> = fr @ map (\<lambda>k. createPageBreak (k = 0) k g) [i ..< nat \<lceil>b\<rceil>]"
      using lt by (simp add: upt_conv_Cons)
    finally show ?thesis .
  next
    case False
    then have "\<lceil>b\<rceil> \<le> int i" by (simp add: ceiling_le_iff)
    then have ge: "nat \<lceil>b\<rceil> \<le> i" by linarith
    have "appendPageBreaks g b i fr = fr"
      using False by (subst appendPageBreaks.simps) simp
    then show ?thesis
      using ge by simp
  qed
qed

lemma synthesize_nat:
  "synthesize g (Fin (real n)) = Some (map (\<lambda>k. createPageBreak (k = 0) k g) [0 ..< n + 5])"
proof -
  have "\<lceil>real n + 5\<rceil> = int n + 5"
    by linarith
  then have "nat \<lceil>real n + 5\<rceil> = n + 5"
    by simp
  then show ?thesis
    by (simp add: synthesize_def appendPageBreaks_eq)
qed

text \<open>
  The one page count on which the loop does not end is \<open>Infinity\<close>, which the estimate
  is only when the content band has height zero.
\<close>

lemma synthesize_PosInf: "synthesize g PosInf = None"
  by (simp add: synthesize_def)


section \<open>Footer texts\<close>

lemma js_String_3: "js_String 3 = ''3''"
  by (simp add: js_String.simps digit_char_def)

lemma footer_array:
  assumes "xs \<noteq> []"
  shows "(case js_or (js_or (js_index xs (int i)) (js_index xs (int (length xs) - 1))) (Some [])
          of Some s \<Rightarrow> s | None \<Rightarrow> [])
         = (if i < length xs \<and> xs ! i \<noteq> [] then xs ! i else last xs)"
proof -
  have n: "nat (int (length xs) - 1) = length xs - 1"
    by simp
  have l: "js_index xs (int (length xs) - 1) = Some (last xs)"
    using assms unfolding js_index_def n by (simp add: last_conv_nth)
  show ?thesis
    unfolding l by (cases "last xs = []") (simp_all add: js_index_def)
qed

lemma synthesize_elems:
  assumes "synthesize g pages = Some bs" and "b \<in> set bs"
  shows "\<exists>k. b = createPageBreak (k = 0) k g"
proof (cases "js_add pages (Fin 5)")
  case (Fin bound)
  then have "bs = map (\<lambda>k. createPageBreak (k = 0) k g) [0 ..< nat \<lceil>bound\<rceil>]"
    using assms(1) by (simp add: synthesize_def appendPageBreaks_eq)
  then show ?thesis
    using assms(2) by auto
next
  case PosInf
  then show ?thesis
    using assms(1) by (simp add: synthesize_def)
next
  case NegInf
  then show ?thesis
    using assms by (simp add: synthesize_def)
next
  case NaN
  then show ?thesis
    using assms by (simp add: synthesize_def)
qed

lemma footer_text_createPageBreak:
  "footer_text (createPageBreak fp k g) = createPageBreak_footerText g k"
  by (simp add: createPageBreak_def Let_def)

lemma footerText_Arr:
  assumes "footerText g = Arr xs" and "xs \<noteq> []"
  shows "createPageBreak_footerText g i
           = (if i < length xs \<and> xs ! i \<noteq> [] then xs ! i else last xs)"
    and "pageBreakDefinition_footerText g i
           = (if i < length xs \<and> xs ! i \<noteq> [] then xs ! i else last xs)"
  using assms footer_array [OF assms(2), of i]
  by (simp_all add: createPageBreak_footerText_def pageBreakDefinition_footerText_def)

lemma footerText_Arr_empty:
  assumes "footerText g = Arr []"
  shows "createPageBreak_footerText g i = []" and "pageBreakDefinition_footerText g i = []"
  using assms
  by (simp_all add: createPageBreak_footerText_def pageBreakDefinition_footerText_def js_index_def)

lemma footerText_examples:
  "createPageBreak_footerText (g\<lparr>footerText := Arr [''A'', ''B'']\<rparr>) 5 = ''B''"
  "createPageBreak_footerText (g\<lparr>footerText := Fn (\<lambda>i. ''Page '' @ js_String i)\<rparr>) 2 = ''Page 3''"
  by (simp_all add: createPageBreak_footerText_def js_index_def js_String_3)

text \<open>
  Claim C3. At every page index \<open>i\<close>: a fixed string is the footer text as it is, on
  every descriptor the synthesis returns; an array gives its entry at \<open>i\<close>, and its last
  entry when \<open>i\<close> is beyond the array or the entry is the empty string (an empty array,
  which has no last entry, gives the empty string); a function is called with the page
  number \<open>i + 1\<close>. So \<^verbatim>\<open>["A","B"]\<close> at index 5 gives \<^verbatim>\<open>"B"\<close> and
  \<^verbatim>\<open>i => "Page " + i\<close> at index 2 gives \<^verbatim>\<open>"Page 3"\<close>. Both revisions of the footer
  block agree.
\<close>

theorem footerText_resolution:
  "(footerText g = Str s \<longrightarrow>
      createPageBreak_footerText g i = s \<and> pageBreakDefinition_footerText g i = s
      \<and> (\<forall>bs. synthesize g pages = Some bs \<longrightarrow> (\<forall>b \<in> set bs. footer_text b = s)))
   \<and> (footerText g = Arr xs \<and> xs \<noteq> [] \<longrightarrow>
      createPageBreak_footerText g i
        = (if i < length xs \<and> xs ! i \<noteq> [] then xs ! i else last xs)
      \<and> pageBreakDefinition_footerText g i
        = (if i < length xs \<and> xs ! i \<noteq> [] then xs ! i else last xs))
   \<and> (footerText g = Arr [] \<longrightarrow>
      createPageBreak_footerText g i = [] \<and> pageBreakDefinition_footerText g i = [])
   \<and> (footerText g = Fn f \<longrightarrow>
      createPageBreak_footerText g i = f (i + 1) \<and> pageBreakDefinition_footerText g i = f (i + 1))
   \<and> createPageBreak_footerText (g\<lparr>footerText := Arr [''A'', ''B'']\<rparr>) 5 = ''B''
   \<and> createPageBreak_footerText (g\<lparr>footerText := Fn (\<lambda>i. ''Page '' @ js_String i)\<rparr>) 2 = ''Page 3''"
proof -
  have str: "footerText g = Str s \<longrightarrow>
      createPageBreak_footerText g i = s \<and> pageBreakDefinition_footerText g i = s
      \<and> (\<forall>bs. synthesize g pages = Some bs \<longrightarrow> (\<forall>b \<in> set bs. footer_text b = s))"
  proof (intro conjI impI allI ballI)
    fix bs b
    assume s: "footerText g = Str s" and syn: "synthesize g pages = Some bs" and b: "b \<in> set bs"
    obtain k where "b = createPageBreak (k = 0) k g"
      using synthesize_elems [OF syn b] by blast
    then show "footer_text b = s"
      using s by (simp add: footer_text_createPageBreak createPageBreak_footerText_def)
  qed (simp_all add: createPageBreak_footerText_def pageBreakDefinition_footerText_def)
  have arr: "footerText g = Arr xs \<and> xs \<noteq> [] \<longrightarrow>
      createPageBreak_footerText g i
        = (if i < length xs \<and> xs ! i \<noteq> [] then xs ! i else last xs)
      \<and> pageBreakDefinition_footerText g i
        = (if i < length xs \<and> xs ! i \<noteq> [] then xs ! i else last xs)"
    using footerText_Arr [of g xs i] by blast
  have emp: "footerText g = Arr [] \<longrightarrow>
      createPageBreak_footerText g i = [] \<and> pageBreakDefinition_footerText g i = []"
    using footerText_Arr_empty [of g i] by blast
  have fn: "footerText g = Fn f \<longrightarrow>
      createPageBreak_footerText g i = f (i + 1) \<and> pageBreakDefinition_footerText g i = f (i + 1)"
    by (simp add: createPageBreak_footerText_def pageBreakDefinition_footerText_def)
  show ?thesis
    by (intro conjI str arr emp fn footerText_examples)
qed

theorem footerText_resolution_witness:
  "createPageBreak_footerText (addOptions\<lparr>footerText := Str ''Draft''\<rparr>) 7 = ''Draft''
   \<and> map_option (map footer_text) (synthesize (addOptions\<lparr>footerText := Str ''Draft''\<rparr>) (Fin (- 4)))
       = Some [''Draft'']
   \<and> createPageBreak_footerText (addOptions\<lparr>footerText := Arr [''A'', ''B'']\<rparr>) 0 = ''A''
   \<and> createPageBreak_footerText (addOptions\<lparr>footerText := Arr [''A'', ''B'']\<rparr>) 5 = ''B''
   \<and> createPageBreak_footerText (addOptions\<lparr>footerText := Arr [''A'', [], ''C'']\<rparr>) 1 = ''C''
   \<and> createPageBreak_footerText (addOptions\<lparr>footerText := Arr []\<rparr>) 1 = []
   \<and> pageBreakDefinition_footerText (addOptions\<lparr>footerText := Fn (\<lambda>i. ''Page '' @ js_String i)\<rparr>) 2 = ''Page 3''"
proof -
  let ?d = "addOptions\<lparr>footerText := Str ''Draft''\<rparr>"
  have syn: "synthesize ?d (Fin (- 4)) = Some [createPageBreak True 0 ?d]"
    by (simp add: synthesize_def appendPageBreaks_eq)
  have "footer_text (createPageBreak True 0 ?d) = ''Draft''"
    using footerText_resolution [of ?d "''Draft''" 0 "Fin (- 4)"] syn by simp
  then show ?thesis
    using syn
      footerText_resolution [of ?d "''Draft''" 7]
      footerText_resolution [of "addOptions\<lparr>footerText := Arr [''A'', ''B'']\<rparr>" _ 0 _ "[''A'', ''B'']"]
      footerText_resolution [of "addOptions\<lparr>footerText := Arr [''A'', ''B'']\<rparr>" _ 5 _ "[''A'', ''B'']"]
      footerText_resolution [of "addOptions\<lparr>footerText := Arr [''A'', [], ''C'']\<rparr>" _ 1 _ "[''A'', [], ''C'']"]
      footerText_resolution [of "addOptions\<lparr>footerText := Arr []\<rparr>" _ 1]
      footerText_resolution [of "addOptions\<lparr>footerText := Fn (\<lambda>i. ''Page '' @ js_String i)\<rparr>" _ 2 _ _ "\<lambda>i. ''Page '' @ js_String i"]
    by (simp add: js_String_3)
qed

section \<open>Page boundaries\<close>

lemma pageTops_example: "pageTopsOf [0, 900, 1800] = [Fin 900, Fin 1800, PosInf]"
  by (simp add: pageTopsOf_def)

lemma findBucket_example: "findBucket [Fin 900, Fin 1800, PosInf] 1850 0 = Some 2"
  by (simp add: findBucket.simps js_ge_def)

lemma findBucket_unfiltered: "findBucket [Fin 0, Fin 900, Fin 1800, PosInf] 1850 0 = Some 3"
  by (simp add: findBucket.simps js_ge_def)

text \<open>
  Claim C4, as amended. The page bodies' tops 0, 900 and 1800 leave, once the zero is
  filtered out and the sentinel pushed, the sequence 900, 1800, \<open>Infinity\<close>. An element
  whose top is 1850 lies in the bucket from 1800 on, which is at index 1 of that sequence:
  it is classified into page 2, and a tree whose only content element between the spacers
  is that one has 2 as its only populated page.
\<close>

theorem classification_1850: "pageTopsOf [0, 900, 1800] = [Fin 900, Fin 1800, PosInf]
   \<and> findBucket (pageTopsOf [0, 900, 1800]) 1850 0 = Some 2
   \<and> collectPages [pagesElement [0, 900, 1800] 7, block 0 10, block 1850 20, block 1900 10]
        (pageTopsOf [0, 900, 1800]) 2 {} = {2}"
  by (simp add: pageTops_example findBucket_example collectPages.simps block_def)

text \<open>The page is not 3, which is what the unfiltered sequence would give.\<close>

theorem classification_1850_not_3: "findBucket (pageTopsOf [0, 900, 1800]) 1850 0 \<noteq> Some 3"
  by (simp add: pageTops_example findBucket_example)

lemma finite_collectPages:
  "finite S \<Longrightarrow> finite (collectPages cs tops i S)"
proof (induction cs tops i S rule: collectPages.induct)
  case (1 cs tops i S)
  show ?case
  proof (cases "int i < int (length cs) - 1")
    case True
    have "finite (case findBucket tops (offsetTop (cs ! i)) 0 of
                    Some p \<Rightarrow> insert p S | None \<Rightarrow> S)"
      using "1.prems" by (simp split: option.split)
    then show ?thesis
      using "1.IH" [OF True] True by (subst collectPages.simps) simp
  next
    case False
    then show ?thesis
      using "1.prems" by (subst collectPages.simps) simp
  qed
qed

lemma maxPageOf_greatest:
  assumes "finite S" and "S \<noteq> {}"
  shows "maxPageOf S \<in> S" and "\<forall>p \<in> S. p \<le> maxPageOf S"
proof -
  have "0 < card S"
    using assms by (simp add: card_gt_0_iff)
  then have m: "maxPageOf S = Max S"
    by (simp add: maxPageOf_def)
  show "maxPageOf S \<in> S"
    unfolding m using assms by (rule Max_in)
  show "\<forall>p \<in> S. p \<le> maxPageOf S"
    unfolding m using assms(1) by simp
qed

text \<open>
  Claim C8. When the tree has a pages element, the refresh sets the container's minimum
  height to \<open>(maxPage + 2) * pageHeight + (maxPage + 1) * (pageGap + 2 * pageGapBorderSize)\<close>,
  where \<open>maxPage\<close> is the greatest page that a content element was classified into, and
  0 when no element was classified.
\<close>

theorem refreshPage_minHeight:
  assumes "List.find (\<lambda>child. el_id child = ''pages'') cs = Some target"
  shows "(let pagesWithContent = collectPages cs (pageTopsOf (page_offsetTops target)) 2 {};
              maxPage = maxPageOf pagesWithContent
          in map_option minHeight (refreshPage opts cs)
               = Some (real (maxPage + 2) * pageHeight opts
                        + real (maxPage + 1) * (pageGap opts + 2 * pageGapBorderSize opts))
             \<and> (pagesWithContent = {} \<longrightarrow> maxPage = 0)
             \<and> (pagesWithContent \<noteq> {} \<longrightarrow>
                  maxPage \<in> pagesWithContent \<and> (\<forall>p \<in> pagesWithContent. p \<le> maxPage)))"
proof -
  define S where "S = collectPages cs (pageTopsOf (page_offsetTops target)) 2 {}"
  have fin: "finite S"
    unfolding S_def by (rule finite_collectPages) simp
  have h: "map_option minHeight (refreshPage opts cs)
           = Some (real (maxPageOf S + 2) * pageHeight opts
                    + real (maxPageOf S + 1) * (pageGap opts + 2 * pageGapBorderSize opts))"
    using assms by (simp add: refreshPage_def Let_def S_def algebra_simps)
  have e: "S = {} \<longrightarrow> maxPageOf S = 0"
    by (simp add: maxPageOf_def)
  have g: "S \<noteq> {} \<longrightarrow> maxPageOf S \<in> S \<and> (\<forall>p \<in> S. p \<le> maxPageOf S)"
    using maxPageOf_greatest [OF fin] by blast
  show ?thesis
    unfolding Let_def S_def [symmetric] using h e g by blast
qed

theorem refreshPage_minHeight_witness:
  "map_option minHeight
     (refreshPage addOptions
        [pagesElement [0, 900, 1800] 7, block 0 10, block 1850 20, block 1900 10])
   = Some 3356"
  using refreshPage_minHeight [of "[pagesElement [0, 900, 1800] 7, block 0 10, block 1850 20, block 1900 10]"
               "pagesElement [0, 900, 1800] 7" addOptions]
  by (simp add: pagesElement_def block_def pageTops_example findBucket_example
        collectPages.simps maxPageOf_def addOptions_def Let_def)

section \<open>Drawing the page widget\<close>

lemma dispatch_resynthesis:
  assumes "docChanged tr \<or> getMeta tr pagination_meta_key \<or> getMeta tr resize_meta_key"
  shows "dispatch tr ext =
           (case pageWidget_render ext of
              None \<Rightarrow> None
            | Some breaks \<Rightarrow>
                Some (ext\<lparr> editor_state := \<lparr> doc_content_size = tr_doc tr \<rparr>,
                           pluginState := length (decoStore ext),
                           decoStore := decoStore ext
                             @ [\<lparr> ds_doc = tr_doc tr,
                                  ds_widgets = createDecoration \<lparr> doc_content_size = tr_doc tr \<rparr> (options ext) \<rparr>],
                           editor_view := (editor_view ext)\<lparr>rm_pagination := Some breaks\<rparr> \<rparr>))"
  using assms
  by (simp add: dispatch_def plugin_apply_def DecorationSet_create_def Let_def
        split: option.split)

lemma resize_meta_set:
  "getMeta (setMeta resize_meta_key True tr) resize_meta_key"
  by (simp add: getMeta_def setMeta_def)

lemma pagination_meta_set:
  "getMeta (setMeta pagination_meta_key True tr) pagination_meta_key"
  by (simp add: getMeta_def setMeta_def)

lemma dispatch_options:
  assumes "dispatch tr ext = Some ext'"
  shows "options ext' = options ext" and "nonfinite ext' = nonfinite ext"
  using assms
  by (auto simp: dispatch_def Let_def split: prod.splits if_splits option.splits)

lemma updateStyles_fields:
  "options (updateStyles ext) = options ext"
  "nonfinite (updateStyles ext) = nonfinite ext"
  "editor_state (updateStyles ext) = editor_state ext"
  by (simp_all add: updateStyles_def Let_def split: option.split)

text \<open>
  The page count that the widget of an extension is drawn with: 0 when the header or
  the footer height is not finite, the engine's estimate otherwise.
\<close>

lemma pageWidget_render_rendered:
  "pageWidget_render ext
   = synthesize (options ext)
       (if nonfinite ext PageHeaderHeight \<noteq> None \<or> nonfinite ext PageFooterHeight \<noteq> None
        then Fin 0
        else pageCount_double (options ext) (sumScrollHeight (dom_children (editor_view ext)) 2 0)
               (int (length (rendered ext))))"
  by (simp add: pageWidget_render_def pageWidget_toDOM_def Let_def rendered_def
        split: option.split)



text \<open>
  With a content band whose height is not zero the engine's estimate is a natural number,
  so the widget is drawn: the loop ends. With a band of height zero the estimate is
  \<open>Infinity\<close> as soon as a positive height is left after the overhead.
\<close>

lemma pageCount_double_natural:
  assumes "bandHeight g \<noteq> 0"
  shows "\<exists>n. pageCount_double g H p = Fin (real n)"
proof -
  define A where
    "A = fl (H - fl (of_int (if p > 5 then p - 5 else 0)
                       * fl (fl (fl (pageGap g + pageHeaderHeight g) + pageFooterHeight g)
                             + fl (pageGapBorderSize g * 2))))"
  define c where "c = \<lceil>fl (A / bandHeight g)\<rceil>"
  have P: "Math_ceil (js_div_double A (bandHeight g)) = Fin (of_int c)"
    using assms by (simp add: js_div_double_def c_def)
  have d: "pageCount_double g H p =
             (if js_gt (Math_ceil (js_div_double A (bandHeight g))) (Fin 0)
              then js_round (js_add (Math_ceil (js_div_double A (bandHeight g))) (Fin (- 1)))
              else Fin 0)"
    unfolding pageCount_double_def Let_def A_def bandHeight_def ..
  show ?thesis
  proof (cases "0 < c")
    case True
    then obtain m where "fl (of_int (c - 1)) = real m"
      using fl_natural [of "c - 1"] by auto
    then have "pageCount_double g H p = Fin (real m)"
      unfolding d P using True by (simp add: js_gt_def)
    then show ?thesis
      by blast
  next
    case False
    then have "pageCount_double g H p = Fin (real 0)"
      unfolding d P by (simp add: js_gt_def)
    then show ?thesis
      by blast
  qed
qed

lemma pageCount_double_zero_band:
  assumes "bandHeight g = 0"
  shows "pageCount_double g H p =
           (if 0 < fl (H - fl (of_int (max 0 (p - 5))
                                 * fl (fl (fl (pageGap g + pageHeaderHeight g) + pageFooterHeight g)
                                       + fl (pageGapBorderSize g * 2))))
            then PosInf else Fin 0)"
proof -
  have m: "(if p > 5 then p - 5 else 0) = max 0 (p - 5)"
    by simp
  have b: "fl (pageHeight g - fl (pageHeaderHeight g + pageFooterHeight g)) = 0"
    using assms by (simp add: bandHeight_def)
  show ?thesis
    unfolding pageCount_double_def Let_def m b
    by (simp add: js_div_double_def js_gt_def)
qed

lemma pageWidget_render_returns:
  assumes "bandHeight (options ext) \<noteq> 0"
  shows "\<exists>bs. pageWidget_render ext = Some bs"
proof (cases "nonfinite ext PageHeaderHeight \<noteq> None \<or> nonfinite ext PageFooterHeight \<noteq> None")
  case True
  then have "pageWidget_render ext = synthesize (options ext) (Fin (real 0))"
    by (simp add: pageWidget_render_rendered)
  then show ?thesis
    unfolding synthesize_nat by blast
next
  case False
  obtain n where "pageCount_double (options ext) (sumScrollHeight (dom_children (editor_view ext)) 2 0)
                    (int (length (rendered ext))) = Fin (real n)"
    using pageCount_double_natural [OF assms] by blast
  then have "pageWidget_render ext = synthesize (options ext) (Fin (real n))"
    using False by (simp add: pageWidget_render_rendered)
  then show ?thesis
    unfolding synthesize_nat by blast
qed

lemma bandHeight_whole:
  assumes "wholeGeometry g"
  shows "bandHeight g = pageHeight g - (pageHeaderHeight g + pageFooterHeight g)"
proof -
  obtain ph where ph: "pageHeight g = of_int ph" "\<bar>ph\<bar> \<le> 16777216"
    using assms by (auto simp: wholeGeometry_def elim: wholePixels_int)
  obtain hd where hd: "pageHeaderHeight g = of_int hd" "\<bar>hd\<bar> \<le> 16777216"
    using assms by (auto simp: wholeGeometry_def elim: wholePixels_int)
  obtain ft where ft: "pageFooterHeight g = of_int ft" "\<bar>ft\<bar> \<le> 16777216"
    using assms by (auto simp: wholeGeometry_def elim: wholePixels_int)
  have f1: "fl (pageHeaderHeight g + pageFooterHeight g) = of_int (hd + ft)"
    using hd(2) ft(2) by (intro fl_whole) (simp_all add: hd(1) ft(1))
  have f2: "fl (pageHeight g - of_int (hd + ft)) = of_int (ph - (hd + ft))"
    using ph(2) hd(2) ft(2) by (intro fl_whole) (simp_all add: ph(1))
  show ?thesis
    unfolding bandHeight_def f1 f2 by (simp add: ph(1) hd(1) ft(1))
qed

section \<open>Margin updates\<close>

lemma rejected_field:
  assumes "f = NonNumber \<or> (\<exists>n. f = Num n \<and> js_lt n (Fin 0))"
  shows "f \<noteq> Undefined \<and> (\<not> typeof_number f \<or> js_negative f)"
  using assms by auto

lemma updatePageMargins_invalid:
  assumes "(left_m m \<noteq> Undefined \<and> (\<not> typeof_number (left_m m) \<or> js_negative (left_m m)))
         \<or> (right_m m \<noteq> Undefined \<and> (\<not> typeof_number (right_m m) \<or> js_negative (right_m m)))
         \<or> (top_m m \<noteq> Undefined \<and> (\<not> typeof_number (top_m m) \<or> js_negative (top_m m)))
         \<or> (bottom_m m \<noteq> Undefined \<and> (\<not> typeof_number (bottom_m m) \<or> js_negative (bottom_m m)))"
  shows "updatePageMargins m ext = Some (False, ext)"
  using assms unfolding updatePageMargins_def Let_def
  by (simp only: if_True if_False split: if_split) blast

text \<open>
  What the checks do reject: a provided field that is not of type number, or that is a
  number below zero (\<open>-Infinity\<close> among them). Then \<^verbatim>\<open>updatePageMargins\<close> returns
  \<^verbatim>\<open>false\<close> and leaves the whole extension as it was, all four checks coming before
  the first assignment.
\<close>

lemma updatePageMargins_rejects:
  assumes "f \<in> {left_m m, right_m m, top_m m, bottom_m m}"
      and "f = NonNumber \<or> (\<exists>n. f = Num n \<and> js_lt n (Fin 0))"
  shows "updatePageMargins m ext = Some (False, ext)
         \<and> updatePageMargins_ts (Some m) ext = Some (False, ext)"
proof -
  have "f \<noteq> Undefined \<and> (\<not> typeof_number f \<or> js_negative f)"
    using assms(2) by (rule rejected_field)
  then have "updatePageMargins m ext = Some (False, ext)"
    using assms(1) by (intro updatePageMargins_invalid) auto
  then show ?thesis
    by (simp add: updatePageMargins_ts_def)
qed

text \<open>\<^verbatim>\<open>updatePageMargins({left: -1})\<close> fails and changes nothing.\<close>

lemma updatePageMargins_rejects_minus_one:
  "updatePageMargins (marginsOnly (Number (- 1)) Undefined Undefined Undefined)
     (sampleExtension [] None)
   = Some (False, sampleExtension [] None)"
  using updatePageMargins_rejects [of "Number (- 1)" "marginsOnly (Number (- 1)) Undefined Undefined Undefined"
               "sampleExtension [] None"]
  by (simp add: marginsOnly_def)

text \<open>
  When no check fires, the four assignments are made, the style sheet is written again
  and the transaction with the pagination key is dispatched.
\<close>

lemma updatePageMargins_accepted:
  assumes "\<not> (left_m m \<noteq> Undefined \<and> (\<not> typeof_number (left_m m) \<or> js_negative (left_m m)))"
      and "\<not> (right_m m \<noteq> Undefined \<and> (\<not> typeof_number (right_m m) \<or> js_negative (right_m m)))"
      and "\<not> (top_m m \<noteq> Undefined \<and> (\<not> typeof_number (top_m m) \<or> js_negative (top_m m)))"
      and "\<not> (bottom_m m \<noteq> Undefined \<and> (\<not> typeof_number (bottom_m m) \<or> js_negative (bottom_m m)))"
  shows "updatePageMargins m ext
         = map_option (Pair True)
             (dispatch (setMeta pagination_meta_key True (state_tr (editor_state ext)))
                (updateStyles (ext\<lparr> options := assignedOptions m (options ext),
                                    nonfinite := heldNonfinite m (nonfinite ext) \<rparr>)))"
proof -
  define e1 where "e1 = (if left_m m \<noteq> Undefined
                       then ext\<lparr>options := (options ext)
                                  \<lparr>pageMarginLeft := assigned (left_m m) (pageMarginLeft (options ext))\<rparr>,
                                nonfinite := held PageMarginLeft (left_m m) (nonfinite ext)\<rparr>
                       else ext)"
  define e2 where "e2 = (if right_m m \<noteq> Undefined
                       then e1\<lparr>options := (options e1)
                                  \<lparr>pageMarginRight := assigned (right_m m) (pageMarginRight (options e1))\<rparr>,
                                nonfinite := held PageMarginRight (right_m m) (nonfinite e1)\<rparr>
                       else e1)"
  define e3 where "e3 = (if top_m m \<noteq> Undefined
                       then e2\<lparr>options := (options e2)
                                  \<lparr>pageHeaderHeight := assigned (top_m m) (pageHeaderHeight (options e2))\<rparr>,
                                nonfinite := held PageHeaderHeight (top_m m) (nonfinite e2)\<rparr>
                       else e2)"
  define e4 where "e4 = (if bottom_m m \<noteq> Undefined
                       then e3\<lparr>options := (options e3)
                                  \<lparr>pageFooterHeight := assigned (bottom_m m) (pageFooterHeight (options e3))\<rparr>,
                                nonfinite := held PageFooterHeight (bottom_m m) (nonfinite e3)\<rparr>
                       else e3)"
  have run: "updatePageMargins m ext
             = map_option (Pair True)
                 (dispatch (setMeta pagination_meta_key True (state_tr (editor_state (updateStyles e4))))
                    (updateStyles e4))"
    unfolding updatePageMargins_def Let_def e4_def e3_def e2_def e1_def
    using assms by (simp only: if_False)
  have o1: "e1 = ext\<lparr>options := (options ext)
                          \<lparr>pageMarginLeft := assigned (left_m m) (pageMarginLeft (options ext))\<rparr>,
                      nonfinite := held PageMarginLeft (left_m m) (nonfinite ext)\<rparr>"
    unfolding e1_def by (cases "left_m m") simp_all
  have o2: "e2 = e1\<lparr>options := (options e1)
                          \<lparr>pageMarginRight := assigned (right_m m) (pageMarginRight (options e1))\<rparr>,
                      nonfinite := held PageMarginRight (right_m m) (nonfinite e1)\<rparr>"
    unfolding e2_def by (cases "right_m m") simp_all
  have o3: "e3 = e2\<lparr>options := (options e2)
                          \<lparr>pageHeaderHeight := assigned (top_m m) (pageHeaderHeight (options e2))\<rparr>,
                      nonfinite := held PageHeaderHeight (top_m m) (nonfinite e2)\<rparr>"
    unfolding e3_def by (cases "top_m m") simp_all
  have o4: "e4 = e3\<lparr>options := (options e3)
                          \<lparr>pageFooterHeight := assigned (bottom_m m) (pageFooterHeight (options e3))\<rparr>,
                      nonfinite := held PageFooterHeight (bottom_m m) (nonfinite e3)\<rparr>"
    unfolding e4_def by (cases "bottom_m m") simp_all
  have e4: "e4 = ext\<lparr> options := assignedOptions m (options ext),
                       nonfinite := heldNonfinite m (nonfinite ext) \<rparr>"
    unfolding o4 o3 o2 o1 by (simp add: assignedOptions_def heldNonfinite_def)
  have "editor_state (updateStyles e4) = editor_state ext"
    unfolding e4 by (simp add: updateStyles_fields)
  then show ?thesis
    unfolding run e4 by simp
qed

text \<open>
  The command then returns \<^verbatim>\<open>true\<close> when the band left by the assignments is not of
  height zero.
\<close>

lemma updatePageMargins_returns:
  assumes "\<not> (left_m m \<noteq> Undefined \<and> (\<not> typeof_number (left_m m) \<or> js_negative (left_m m)))"
      and "\<not> (right_m m \<noteq> Undefined \<and> (\<not> typeof_number (right_m m) \<or> js_negative (right_m m)))"
      and "\<not> (top_m m \<noteq> Undefined \<and> (\<not> typeof_number (top_m m) \<or> js_negative (top_m m)))"
      and "\<not> (bottom_m m \<noteq> Undefined \<and> (\<not> typeof_number (bottom_m m) \<or> js_negative (bottom_m m)))"
      and "bandHeight (assignedOptions m (options ext)) \<noteq> 0"
  shows "\<exists>ext'. updatePageMargins m ext = Some (True, ext')
               \<and> options ext' = assignedOptions m (options ext)
               \<and> nonfinite ext' = heldNonfinite m (nonfinite ext)"
proof -
  define e where "e = updateStyles (ext\<lparr> options := assignedOptions m (options ext),
                                          nonfinite := heldNonfinite m (nonfinite ext) \<rparr>)"
  define tr where "tr = setMeta pagination_meta_key True (state_tr (editor_state ext))"
  have oe: "options e = assignedOptions m (options ext)"
    and ne: "nonfinite e = heldNonfinite m (nonfinite ext)"
    by (simp_all add: e_def updateStyles_fields)
  have "bandHeight (options e) \<noteq> 0"
    using assms(5) by (simp add: oe)
  then obtain bs where "pageWidget_render e = Some bs"
    using pageWidget_render_returns by blast
  then obtain ext' where d: "dispatch tr e = Some ext'"
    using dispatch_resynthesis [of tr e] pagination_meta_set [of "state_tr (editor_state ext)"]
    by (simp add: tr_def)
  have "updatePageMargins m ext = Some (True, ext')"
    unfolding updatePageMargins_accepted [OF assms(1-4)] e_def [symmetric] tr_def [symmetric] d
    by simp
  then show ?thesis
    using dispatch_options [OF d] oe ne by simp
qed

lemma bandHeight_addOptions: "bandHeight addOptions = 780"
  using bandHeight_whole [of addOptions]
  by (simp add: wholeGeometry_def wholePixels_def addOptions_def)

text \<open>
  Claim C6. A provided field that is not a number should make the command fail and
  change nothing, and the checks are written for that: each asks for a non-negative
  number. They miss \<open>NaN\<close>: its \<^verbatim>\<open>typeof\<close> is \<^verbatim>\<open>"number"\<close> and \<^verbatim>\<open>NaN < 0\<close> is false.
  \<^verbatim>\<open>updatePageMargins({left: NaN})\<close> returns \<^verbatim>\<open>true\<close>, in both revisions, and
  \<open>pageMarginLeft\<close> holds \<open>NaN\<close> afterwards.
\<close>

theorem updatePageMargins_accepts_NaN:
  "map_option fst
     (updatePageMargins (marginsOnly (Num NaN) Undefined Undefined Undefined)
        (sampleExtension [] None)) = Some True
   \<and> map_option (\<lambda>r. nonfinite (snd r) PageMarginLeft)
       (updatePageMargins (marginsOnly (Num NaN) Undefined Undefined Undefined)
          (sampleExtension [] None)) = Some (Some NaN)
   \<and> map_option fst
       (updatePageMargins_ts (Some (marginsOnly (Num NaN) Undefined Undefined Undefined))
          (sampleExtension [] None)) = Some True"
proof -
  let ?m = "marginsOnly (Num NaN) Undefined Undefined Undefined"
  let ?S = "sampleExtension [] None"
  have o: "assignedOptions ?m (options ?S) = addOptions"
    by (simp add: assignedOptions_def marginsOnly_def sampleExtension_def)
  have n: "heldNonfinite ?m (nonfinite ?S) PageMarginLeft = Some NaN"
    by (simp add: heldNonfinite_def marginsOnly_def sampleExtension_def)
  have "bandHeight (assignedOptions ?m (options ?S)) \<noteq> 0"
    unfolding o by (simp add: bandHeight_addOptions)
  then obtain ext' where "updatePageMargins ?m ?S = Some (True, ext')"
      and "nonfinite ext' = heldNonfinite ?m (nonfinite ?S)"
    using updatePageMargins_returns [of ?m ?S] by (auto simp: marginsOnly_def)
  then show ?thesis
    using n by (simp add: updatePageMargins_ts_def)
qed

text \<open>
  So the call on \<^verbatim>\<open>{left: NaN}\<close> ends with \<^verbatim>\<open>true\<close> and \<open>NaN\<close> in the left margin at
  once, where a failed call would have ended with \<^verbatim>\<open>false\<close> and the margin as it was.
\<close>

theorem updatePageMargins_accepts_NaN_witness:
  "map_option (\<lambda>r. (fst r, nonfinite (snd r) PageMarginLeft))
     (updatePageMargins (marginsOnly (Num NaN) Undefined Undefined Undefined)
        (sampleExtension [] None)) = Some (True, Some NaN)"
  using updatePageMargins_accepts_NaN
  by (cases "updatePageMargins (marginsOnly (Num NaN) Undefined Undefined Undefined)
               (sampleExtension [] None)") simp_all

section \<open>Reuse of the decoration set\<close>

text \<open>
  Claim C7. For a transaction that does not change the document and carries neither the
  pagination key nor the resize key, the plugin's apply step returns the reference of the
  previous decoration set and builds no new set (the store is unchanged), in both
  revisions. Dispatching such a transaction leaves the plugin state, the store and the
  breaks on display as they are.
\<close>

theorem plugin_apply_unrelated:
  assumes "\<not> docChanged tr"
      and "meta tr pagination_meta_key = None"
      and "meta tr resize_meta_key = None"
  shows "plugin_apply pageOptions tr oldDeco oldState newState store = (oldDeco, store)
         \<and> plugin_apply_ts pageOptions tr oldDeco oldState newState store = (oldDeco, store)
         \<and> map_option pluginState (dispatch tr ext) = Some (pluginState ext)
         \<and> map_option decoStore (dispatch tr ext) = Some (decoStore ext)
         \<and> map_option rendered (dispatch tr ext) = Some (rendered ext)"
  using assms
  by (simp add: plugin_apply_def plugin_apply_ts_def getMeta_def dispatch_def Let_def
        rendered_def)

theorem plugin_apply_unrelated_witness:
  "plugin_apply addOptions (state_tr \<lparr> doc_content_size = 2 \<rparr>) 0
     \<lparr> doc_content_size = 2 \<rparr> \<lparr> doc_content_size = 2 \<rparr> (decoStore (sampleExtension [] None))
   = (0, decoStore (sampleExtension [] None))
   \<and> map_option rendered
         (dispatch (state_tr \<lparr> doc_content_size = 2 \<rparr>) (sampleExtension [] (Some (breaksUpTo 5))))
       = Some (breaksUpTo 5)"
  using plugin_apply_unrelated [of "state_tr \<lparr> doc_content_size = 2 \<rparr>" addOptions 0
               "\<lparr> doc_content_size = 2 \<rparr>" "\<lparr> doc_content_size = 2 \<rparr>"
               "decoStore (sampleExtension [] None)"
               "sampleExtension [] (Some (breaksUpTo 5))"]
  by (simp add: state_tr_def sampleExtension_def rendered_def)

section \<open>What a margin update changes\<close>




section \<open>Refreshing twice\<close>


lemma refreshPagination_None:
  assumes "pageWidget_render ext = None"
  shows "refreshPagination ext = None"
  using assms
  by (simp add: refreshPagination_def dispatch_resynthesis resize_meta_set)

text \<open>
  With a band of height zero and a positive height left after the overhead, the estimate
  is \<open>Infinity\<close> and \<^verbatim>\<open>refreshPagination\<close> does not return.
\<close>

lemma refreshPagination_degenerate:
  assumes "nonfinite ext PageHeaderHeight = None" and "nonfinite ext PageFooterHeight = None"
      and "bandHeight (options ext) = 0"
      and "0 < fl (sumScrollHeight (dom_children (editor_view ext)) 2 0
                   - fl (of_int (max 0 (int (length (rendered ext)) - 5))
                          * fl (fl (fl (pageGap (options ext) + pageHeaderHeight (options ext))
                                    + pageFooterHeight (options ext))
                                + fl (pageGapBorderSize (options ext) * 2))))"
  shows "refreshPagination ext = None"
proof -
  have "pageCount_double (options ext) (sumScrollHeight (dom_children (editor_view ext)) 2 0)
          (int (length (rendered ext))) = PosInf"
    using assms(4) by (simp add: pageCount_double_zero_band [OF assms(3)])
  then have "pageWidget_render ext = None"
    using assms(1,2) by (simp add: pageWidget_render_rendered synthesize_PosInf)
  then show ?thesis
    by (rule refreshPagination_None)
qed










end
